theory Spec2Isabelle
  imports Complex_Main "HOL-Library.Log_Nat"
begin

text \<open>
  A model of the Spotted application: the schema of its database with its row level
  security policies, its view and its functions, and the client library that submits
  and reads reports. The first part defines the model; the sections after the example
  data state and prove what the specification says about it.
\<close>

section \<open>Values of the two languages\<close>

subsection \<open>JavaScript strings\<close>

text \<open>
  A string on which the program computes (a licence plate) is the list of its Unicode
  code points; \<open>ascii\<close> reads an ASCII literal as such a string. Strings that are
  only stored and compared (ids, kinds, statuses, labels) are kept as byte strings.

  \<open>String.prototype.toUpperCase\<close> replaces every code point by its upper-case
  mapping, which can be several code points. On ASCII the mapping is written out: the
  letters \<open>a\<close> to \<open>z\<close> go to their capitals and nothing else changes. Beyond ASCII it
  is the table of the Unicode character database, which is not part of the repository
  and is a parameter of the model (for \<open>U+00DF\<close>, the sharp s, it gives \<open>SS\<close>).
\<close>

type_synonym js_string = "int list"

definition ascii :: "string \<Rightarrow> js_string" where
  "ascii s = map of_char s"

definition upper_code_point :: "(int \<Rightarrow> int list) \<Rightarrow> int \<Rightarrow> int list" where
  "upper_code_point table c =
     (if c < 128 then (if 97 \<le> c \<and> c \<le> 122 then [c - 32] else [c]) else table c)"

definition toUpperCase :: "(int \<Rightarrow> int list) \<Rightarrow> js_string \<Rightarrow> js_string" where
  "toUpperCase table s = concat (map (upper_code_point table) s)"

subsection \<open>JavaScript numbers\<close>

text \<open>
  A JavaScript number is an IEEE 754 double. A double is modelled by the rational it
  denotes; every arithmetic operation computes the exact result and rounds it to the
  nearest double, ties to the even significand (\<open>to_double\<close>). The exponent range is
  not modelled: no overflow to Infinity and no subnormals, which the amounts of money and
  the counts of this program never reach.
\<close>

definition round_half_even :: "rat \<Rightarrow> int" where
  "round_half_even x =
     (let f = \<lfloor>x\<rfloor>; d = x - of_int f
      in if d < 1 / 2 then f else if 1 / 2 < d then f + 1 else if even f then f else f + 1)"

text \<open>
  \<open>ndigits b n\<close> counts the digits of \<open>n\<close> in base \<open>b\<close>, and \<open>ilog b x\<close> is the
  integer \<open>e\<close> with \<open>b ^ e \<le> \<bar>x\<bar> < b ^ (e + 1)\<close>, for \<open>x \<noteq> 0\<close>.
\<close>

function ndigits :: "int \<Rightarrow> int \<Rightarrow> int" where
  "ndigits b n = (if 1 < b \<and> 0 < n then ndigits b (n div b) + 1 else 0)"
  by pat_completeness auto
termination
proof (relation "measure (\<lambda>(b, n). nat n)")
  show "wf (measure (\<lambda>(b :: int, n :: int). nat n))"
    by simp
next
  fix b n :: int
  assume "1 < b \<and> 0 < n"
  then have "n div b < n"
    by (simp add: int_div_less_self)
  with \<open>1 < b \<and> 0 < n\<close> show "((b, n div b), (b, n)) \<in> measure (\<lambda>(b, n). nat n)"
    by simp
qed

declare ndigits.simps [simp del]

definition ilog :: "int \<Rightarrow> rat \<Rightarrow> int" where
  "ilog b x =
     (let (p, q) = quotient_of \<bar>x\<bar>;
          d = ndigits b p - ndigits b q
      in if of_int b powi d \<le> \<bar>x\<bar> then d else d - 1)"

definition to_double :: "rat \<Rightarrow> rat" where
  "to_double x =
     (if x = 0 then 0
      else let e = ilog 2 x - 52 in of_int (round_half_even (x / 2 powi e)) * 2 powi e)"

definition js_mul :: "rat \<Rightarrow> rat \<Rightarrow> rat" where
  "js_mul a b = to_double (a * b)"

definition js_add :: "rat \<Rightarrow> rat \<Rightarrow> rat" where
  "js_add a b = to_double (a + b)"

definition js_div :: "rat \<Rightarrow> rat \<Rightarrow> rat" where
  "js_div a b = to_double (a / b)"

text \<open>\<open>Math.round\<close>: the nearest integer, a tie going up.\<close>

definition Math_round :: "rat \<Rightarrow> rat" where
  "Math_round x = of_int \<lfloor>x + 1 / 2\<rfloor>"

text \<open>
  A number travels to the database as JSON text: the decimal with the fewest significant
  digits that reads back as the same double and, among those of that many digits, the
  one closest to it (a tie going to the even last digit). With \<open>k\<close> digits the only
  decimals that can read back as \<open>v\<close> are its two neighbours, the one below and the
  one above. 17 digits always suffice, so the last case of \<open>number_to_json\<close> is
  never reached.
\<close>

definition json_candidates :: "nat \<Rightarrow> rat \<Rightarrow> rat list" where
  "json_candidates k v =
     (let e = ilog 10 v + 1 - int k;
          lo = \<lfloor>v / 10 powi e\<rfloor>;
          below = of_int lo * 10 powi e;
          above = of_int (lo + 1) * 10 powi e
      in filter (\<lambda>d. to_double d = v)
           (if above - v < v - below then [above, below]
            else if v - below < above - v then [below, above]
            else if even lo then [below, above] else [above, below]))"

definition number_to_json :: "rat \<Rightarrow> rat" where
  "number_to_json v =
     (if v = 0 then 0
      else case find (\<lambda>k. json_candidates k v \<noteq> []) [1..<18] of
             Some k \<Rightarrow> (case json_candidates k v of d # ds \<Rightarrow> d | [] \<Rightarrow> v)
           | None \<Rightarrow> v)"

subsection \<open>PostgreSQL values\<close>

datatype pg_error =
    RowSecurityViolation
  | CheckViolation
  | UniqueViolation
  | ForeignKeyViolation
  | NumericValueOutOfRange
  | NoSingleRow
  | RequestFailed

text \<open>
  \<open>numeric\<close> values are exact decimals, modelled as rationals. Rounding to a scale goes
  to the nearest decimal, a tie away from zero; a column \<open>decimal(p, s)\<close> rounds the
  value to scale \<open>s\<close> and refuses it when \<open>p - s\<close> digits before the point do not
  hold it.
\<close>

definition pg_round :: "nat \<Rightarrow> rat \<Rightarrow> rat" where
  "pg_round s x =
     (if 0 \<le> x then of_int \<lfloor>x * 10 ^ s + 1 / 2\<rfloor> / 10 ^ s
      else - (of_int \<lfloor>- x * 10 ^ s + 1 / 2\<rfloor> / 10 ^ s))"

definition pg_decimal :: "nat \<Rightarrow> nat \<Rightarrow> rat \<Rightarrow> pg_error + rat" where
  "pg_decimal p s x =
     (let r = pg_round s x in if 10 ^ (p - s) \<le> \<bar>r\<bar> then Inl NumericValueOutOfRange else Inr r)"

section \<open>The database\<close>

text \<open>
  The schema of the repository. A nullable column is an \<open>option\<close>; a \<open>uuid\<close> is
  its text; a \<open>timestamp with time zone\<close> is the number of microseconds since the epoch.
  Of \<open>profiles\<close> only the primary key is kept, and of \<open>violation_types\<close> the columns
  the program reads (the icons and the timestamps are display data).
\<close>

type_synonym uuid = string
type_synonym timestamptz = int

record violation_type_row =
  label :: string
  fine :: int
  description :: "string option"

record report =
  report_id :: uuid
  user_id :: uuid
  violation_type :: string
  latitude :: "rat option"
  longitude :: "rat option"
  location_text :: "string option"
  photo_url :: "string option"
  plate_number :: "js_string option"
  status :: "string option"
  rejection_reason :: "string option"
  fine_amount :: "int option"
  reward_amount :: "rat option"
  paid_out :: "bool option"
  paid_out_at :: "timestamptz option"
  reported_at :: timestamptz
  reviewed_at :: "timestamptz option"
  created_at :: timestamptz
  updated_at :: timestamptz

text \<open>
  A row of \<open>violation_types\<close> is the pair of its primary key \<open>id\<close> and the rest, and
  \<open>catalog db\<close> looks a kind up by its id. The tables are kept in insertion order.
\<close>

record database =
  profiles :: "uuid list"
  violation_types :: "(string \<times> violation_type_row) list"
  reports :: "report list"

definition catalog :: "database \<Rightarrow> string \<rightharpoonup> violation_type_row" where
  "catalog db = map_of (violation_types db)"

text \<open>The rows the schema inserts into \<open>violation_types\<close>.\<close>

definition seeded_violation_types :: "(string \<times> violation_type_row) list" where
  "seeded_violation_types =
     [(''hydrant'', \<lparr>label = ''Fire Hydrant'', fine = 115, description = Some ''Within 15ft of hydrant''\<rparr>),
      (''double'', \<lparr>label = ''Double Parked'', fine = 115, description = Some ''Blocking travel lane''\<rparr>),
      (''bike'', \<lparr>label = ''Bike Lane'', fine = 175, description = Some ''Blocking bicycle lane''\<rparr>),
      (''bus'', \<lparr>label = ''Bus Stop/Lane'', fine = 175, description = Some ''In bus zone or lane''\<rparr>),
      (''crosswalk'', \<lparr>label = ''Crosswalk'', fine = 115, description = Some ''Blocking pedestrian crossing''\<rparr>),
      (''sidewalk'', \<lparr>label = ''Sidewalk'', fine = 115, description = Some ''On sidewalk/ramp''\<rparr>)]"

subsection \<open>Row level security on \<open>reports\<close>\<close>

text \<open>
  The three policies of the schema: "Users can view own reports" (for select, USING),
  "Users can create own reports" (for insert, WITH CHECK) and "Users can update own
  pending reports" (for update, USING). The first argument of a policy is
  \<open>auth.uid()\<close>: the id of the authenticated user, or NULL. A comparison with NULL
  is not true, so no policy admits an anonymous request, and the update policy does not
  admit a row whose status is NULL.
\<close>

definition view_own_reports :: "uuid option \<Rightarrow> report \<Rightarrow> bool" where
  "view_own_reports uid r = (uid = Some (user_id r))"

definition create_own_reports :: "uuid option \<Rightarrow> report \<Rightarrow> bool" where
  "create_own_reports uid r = (uid = Some (user_id r))"

definition update_own_pending_reports :: "uuid option \<Rightarrow> report \<Rightarrow> bool" where
  "update_own_pending_reports uid r = (uid = Some (user_id r) \<and> status r = Some ''pending'')"

subsection \<open>Statements on \<open>reports\<close>\<close>

text \<open>
  The constraints of the table: the check on \<open>status\<close> (which NULL passes), the
  primary key, and the two foreign keys. The NOT NULL columns are not options.
\<close>

definition status_check :: "report \<Rightarrow> bool" where
  "status_check r =
     (status r = None \<or> status r = Some ''pending'' \<or> status r = Some ''approved''
      \<or> status r = Some ''rejected'')"

definition violated_constraint :: "database \<Rightarrow> report list \<Rightarrow> report \<Rightarrow> pg_error option" where
  "violated_constraint db others r =
     (if \<not> status_check r then Some CheckViolation
      else if report_id r \<in> set (map report_id others) then Some UniqueViolation
      else if user_id r \<notin> set (profiles db) then Some ForeignKeyViolation
      else if catalog db (violation_type r) = None then Some ForeignKeyViolation
      else None)"

text \<open>
  INSERT of one row by a client: the policy's WITH CHECK first, then the constraints.
  The statement either stores the row or fails and stores nothing.
\<close>

definition insert_report :: "uuid option \<Rightarrow> report \<Rightarrow> database \<Rightarrow> pg_error + database" where
  "insert_report uid r db =
     (if \<not> create_own_reports uid r then Inl RowSecurityViolation
      else case violated_constraint db (reports db) r of
             Some e \<Rightarrow> Inl e
           | None \<Rightarrow> Inr (db\<lparr>reports := reports db @ [r]\<rparr>))"

text \<open>SELECT by a client sees the rows the select policy admits.\<close>

definition select_reports :: "uuid option \<Rightarrow> database \<Rightarrow> report list" where
  "select_reports uid db = filter (view_own_reports uid) (reports db)"

section \<open>The client library\<close>

text \<open>
  What a call of the client library depends on besides the database: the session
  (\<open>supabase.auth.getUser()\<close> on the client and \<open>auth.uid()\<close> on the server are the
  same user, and a failed \<open>getUser\<close> is no user), the two clocks, the uuid the
  server generates for a new row, the requests to the database that fail before
  they reach it (\<open>request_fault env k\<close> is the error of the \<open>k\<close>-th such request of
  the call, counted from 0, if it fails), and the upper-case table of the JavaScript
  engine for the code points beyond ASCII.
\<close>

record env =
  auth_user :: "uuid option"
  server_now :: timestamptz
  Date_now :: int
  uuid_generate_v4 :: uuid
  request_fault :: "nat \<Rightarrow> pg_error option"
  unicode_upper :: "int \<Rightarrow> int list"

text \<open>A JavaScript call throws or returns.\<close>

datatype 'a outcome = Throws string | Returns 'a

subsection \<open>createReport\<close>

text \<open>
  The argument object. The function destructures the six properties below; whatever
  else the caller puts into the object (the \<open>more\<close> part of the record) is not read.
  A property that is \<open>undefined\<close> is \<open>None\<close>.
\<close>

record create_args =
  violationType :: string
  arg_latitude :: "rat option"
  arg_longitude :: "rat option"
  locationText :: "string option"
  photoUrl :: "string option"
  plateNumber :: "js_string option"

text \<open>
  The lookup \<open>.from('violation_types').select('fine').eq('id', violationType).single()\<close>:
  its \<open>data\<close> is the fine of the row, or null when there is no row or the request
  failed (the error is dropped by the caller).
\<close>

definition violationData :: "env \<Rightarrow> database \<Rightarrow> string \<Rightarrow> int option" where
  "violationData env db vt =
     (case request_fault env 0 of
        Some e \<Rightarrow> None
      | None \<Rightarrow> map_option fine (catalog db vt))"

text \<open>\<open>violationData?.fine || 115\<close>: the operator \<open>||\<close> takes its right side when the left is
  undefined and also when it is the number 0.\<close>

definition fineAmount :: "int option \<Rightarrow> int" where
  "fineAmount vd = (case vd of None \<Rightarrow> 115 | Some f \<Rightarrow> if f = 0 then 115 else f)"

definition js_0_10 :: rat where
  "js_0_10 = to_double (1 / 10)"

definition rewardAmount :: "int \<Rightarrow> rat" where
  "rewardAmount fa = js_mul (of_int fa) js_0_10"

text \<open>
  The row the INSERT of \<open>createReport\<close> builds: the ten columns of the object, each
  converted to the type of its column, and the defaults of the others. A number that
  does not fit its \<open>decimal\<close> column fails the statement.
\<close>

definition json_decimal :: "nat \<Rightarrow> nat \<Rightarrow> rat option \<Rightarrow> pg_error + rat option" where
  "json_decimal p s v =
     (case v of
        None \<Rightarrow> Inr None
      | Some x \<Rightarrow>
          (case pg_decimal p s (number_to_json x) of Inl e \<Rightarrow> Inl e | Inr d \<Rightarrow> Inr (Some d)))"

definition new_report :: "env \<Rightarrow> uuid \<Rightarrow> 'a create_args_scheme \<Rightarrow> int \<Rightarrow> rat \<Rightarrow> pg_error + report" where
  "new_report env uid args fa ra =
     (case json_decimal 10 8 (arg_latitude args) of
        Inl e \<Rightarrow> Inl e
      | Inr lat \<Rightarrow>
     (case json_decimal 11 8 (arg_longitude args) of
        Inl e \<Rightarrow> Inl e
      | Inr lng \<Rightarrow>
     (case json_decimal 10 2 (Some ra) of
        Inl e \<Rightarrow> Inl e
      | Inr reward \<Rightarrow>
          Inr \<lparr>report_id = uuid_generate_v4 env,
               user_id = uid,
               violation_type = violationType args,
               latitude = lat,
               longitude = lng,
               location_text = locationText args,
               photo_url = photoUrl args,
               plate_number = map_option (toUpperCase (unicode_upper env)) (plateNumber args),
               status = Some ''pending'',
               rejection_reason = None,
               fine_amount = Some fa,
               reward_amount = reward,
               paid_out = Some False,
               paid_out_at = None,
               reported_at = server_now env,
               reviewed_at = None,
               created_at = server_now env,
               updated_at = server_now env\<rparr>)))"

text \<open>
  \<open>createReport\<close> returns the pair \<open>{ data, error }\<close> of the insert, or throws when
  nobody is signed in; the second component of the result is the database afterwards.
\<close>

definition createReport ::
  "env \<Rightarrow> database \<Rightarrow> 'a create_args_scheme
     \<Rightarrow> (report option \<times> pg_error option) outcome \<times> database" where
  "createReport env db args =
     (case auth_user env of
        None \<Rightarrow> (Throws ''Not authenticated'', db)
      | Some uid \<Rightarrow>
          (let fa = fineAmount (violationData env db (violationType args));
               ra = rewardAmount fa
           in case request_fault env 1 of
                Some e \<Rightarrow> (Returns (None, Some e), db)
              | None \<Rightarrow>
                  (case new_report env uid args fa ra of
                     Inl e \<Rightarrow> (Returns (None, Some e), db)
                   | Inr r \<Rightarrow>
                       (case insert_report (auth_user env) r db of
                          Inl e \<Rightarrow> (Returns (None, Some e), db)
                        | Inr db' \<Rightarrow> (Returns (Some r, None), db')))))"

subsection \<open>Reading reports\<close>

text \<open>
  A read returns \<open>{ data, error }\<close>, here a pair. Each row comes with the row of
  \<open>violation_types\<close> it refers to, the embedded \<open>violation_types (label, icon, fine)\<close>.
  Rows with equal \<open>reported_at\<close> stay in insertion order.
\<close>

type_synonym joined_report = "report \<times> violation_type_row option"

definition embed_violation_type :: "database \<Rightarrow> report \<Rightarrow> joined_report" where
  "embed_violation_type db r = (r, catalog db (violation_type r))"

definition getUserReports ::
  "env \<Rightarrow> database \<Rightarrow> uuid \<Rightarrow> nat \<Rightarrow> joined_report list option \<times> pg_error option" where
  "getUserReports env db userId limit =
     (case request_fault env 0 of
        Some e \<Rightarrow> (None, Some e)
      | None \<Rightarrow>
          (Some (map (embed_violation_type db)
             (take limit
               (sort_key (\<lambda>r. - reported_at r)
                 (filter (\<lambda>r. user_id r = userId) (select_reports (auth_user env) db))))),
           None))"

text \<open>\<open>.single()\<close> turns any number of rows other than one into an error.\<close>

definition single :: "'a list \<Rightarrow> 'a option \<times> pg_error option" where
  "single rows = (case rows of [x] \<Rightarrow> (Some x, None) | _ \<Rightarrow> (None, Some NoSingleRow))"

definition getReportById ::
  "env \<Rightarrow> database \<Rightarrow> uuid \<Rightarrow> joined_report option \<times> pg_error option" where
  "getReportById env db reportId =
     (case request_fault env 0 of
        Some e \<Rightarrow> (None, Some e)
      | None \<Rightarrow>
          single (map (embed_violation_type db)
            (filter (\<lambda>r. report_id r = reportId) (select_reports (auth_user env) db))))"

subsection \<open>Statistics\<close>

record stats =
  total_reports :: nat
  approved_reports :: nat
  pending_reports :: nat
  rejected_reports :: nat
  total_earned :: rat
  pending_earnings :: rat
  success_rate :: rat

text \<open>
  \<open>calculateUserStats\<close>, the computation in the client. A \<open>numeric\<close> column arrives as
  a JSON number and is read as the nearest double; \<open>r.reward_amount || 0\<close> is 0 for
  NULL. \<open>reduce\<close> adds from the left, starting from 0.
\<close>

definition reward_or_0 :: "joined_report \<Rightarrow> rat" where
  "reward_or_0 jr = (case reward_amount (fst jr) of None \<Rightarrow> 0 | Some x \<Rightarrow> to_double x)"

definition has_status :: "string \<Rightarrow> joined_report \<Rightarrow> bool" where
  "has_status s jr = (status (fst jr) = Some s)"

definition calculateUserStats :: "env \<Rightarrow> database \<Rightarrow> uuid \<Rightarrow> stats option" where
  "calculateUserStats env db userId =
     (case fst (getUserReports env db userId 1000) of
        None \<Rightarrow> None
      | Some rs \<Rightarrow>
          (let approved = filter (has_status ''approved'') rs;
               pending = filter (has_status ''pending'') rs;
               rejected = filter (has_status ''rejected'') rs
           in Some \<lparr>total_reports = length rs,
                    approved_reports = length approved,
                    pending_reports = length pending,
                    rejected_reports = length rejected,
                    total_earned = foldl (\<lambda>sum r. js_add sum (reward_or_0 r)) 0 approved,
                    pending_earnings = foldl (\<lambda>sum r. js_add sum (reward_or_0 r)) 0 pending,
                    success_rate =
                      (if 0 < length rs
                       then Math_round
                              (js_mul (js_div (of_nat (length approved)) (of_nat (length rs))) 100)
                       else 0)\<rparr>))"

text \<open>
  The view \<open>user_stats\<close>. The left join gives, for a profile, its reports, or one row
  of NULLs when it has none; a joined row is an optional report. \<open>count(e)\<close> counts the
  rows where \<open>e\<close> is not NULL, \<open>sum(e)\<close> adds the values that are not NULL and is NULL
  when there are none. The division of the two counts is taken exactly (PostgreSQL
  carries at least sixteen significant digits, and one decimal is kept).
\<close>

definition left_join_reports :: "report list \<Rightarrow> uuid \<Rightarrow> report option list" where
  "left_join_reports rows p =
     (case filter (\<lambda>r. p = user_id r) rows of [] \<Rightarrow> [None] | rs \<Rightarrow> map Some rs)"

definition sql_count :: "'a option list \<Rightarrow> nat" where
  "sql_count xs = length (filter (\<lambda>x. x \<noteq> None) xs)"

definition sql_sum :: "rat option list \<Rightarrow> rat option" where
  "sql_sum xs =
     (case filter (\<lambda>x. x \<noteq> None) xs of [] \<Rightarrow> None | ys \<Rightarrow> Some (sum_list (map the ys)))"

definition coalesce :: "'a option \<Rightarrow> 'a \<Rightarrow> 'a" where
  "coalesce x d = (case x of None \<Rightarrow> d | Some v \<Rightarrow> v)"

text \<open>\<open>case when r.status = s then 1 end\<close> and
  \<open>case when r.status = s then r.reward_amount else 0 end\<close> on a joined row.\<close>

definition one_when_status :: "string \<Rightarrow> report option \<Rightarrow> nat option" where
  "one_when_status s jr =
     (case jr of None \<Rightarrow> None | Some r \<Rightarrow> if status r = Some s then Some 1 else None)"

definition reward_when_status :: "string \<Rightarrow> report option \<Rightarrow> rat option" where
  "reward_when_status s jr =
     (case jr of
        None \<Rightarrow> Some 0
      | Some r \<Rightarrow> if status r = Some s then reward_amount r else Some 0)"

definition user_stats_row :: "report list \<Rightarrow> uuid \<Rightarrow> stats" where
  "user_stats_row rows p =
     (let js = left_join_reports rows p;
          total = sql_count (map (map_option report_id) js);
          approved = sql_count (map (one_when_status ''approved'') js)
      in \<lparr>total_reports = total,
          approved_reports = approved,
          pending_reports = sql_count (map (one_when_status ''pending'') js),
          rejected_reports = sql_count (map (one_when_status ''rejected'') js),
          total_earned = coalesce (sql_sum (map (reward_when_status ''approved'') js)) 0,
          pending_earnings = coalesce (sql_sum (map (reward_when_status ''pending'') js)) 0,
          success_rate =
            pg_round 1 (if 0 < total then of_nat approved / of_nat total * 100 else 0)\<rparr>)"

definition user_stats :: "database \<Rightarrow> (uuid \<times> stats) list" where
  "user_stats db = map (\<lambda>p. (p, user_stats_row (reports db) p)) (profiles db)"

text \<open>
  \<open>getUserStats\<close> reads the row of the view for a user id. The view is created
  without \<open>security_invoker\<close>, so PostgreSQL reads \<open>reports\<close> for it with the rights
  of the owner of the view, to whom the policies do not apply: the rows of the view are
  those of \<open>user_stats\<close> above, whoever asks. (The schema notes "Views inherit RLS
  from underlying tables"; that is not what the statement it contains does.)
\<close>

definition getUserStats ::
  "env \<Rightarrow> database \<Rightarrow> uuid \<Rightarrow> (uuid \<times> stats) option \<times> pg_error option" where
  "getUserStats env db userId =
     (case request_fault env 0 of
        Some e \<Rightarrow> (None, Some e)
      | None \<Rightarrow> single (filter (\<lambda>row. fst row = userId) (user_stats db)))"

subsection \<open>Duplicate check\<close>

text \<open>
  \<open>checkDuplicate\<close>, the check in the client. The filter value of \<open>.eq\<close> is put
  into the request as text, so an \<open>undefined\<close> plate is compared as the text
  \<open>undefined\<close>. \<open>Date.now()\<close> counts milliseconds. The parameters \<open>latitude\<close> and
  \<open>longitude\<close> do not occur in the body.
\<close>

record duplicate_check =
  isDuplicate :: bool
  error :: "pg_error option"

definition eq_filter :: "js_string option \<Rightarrow> js_string option \<Rightarrow> bool" where
  "eq_filter column v =
     (column = Some (case v of None \<Rightarrow> ascii ''undefined'' | Some s \<Rightarrow> s))"

definition duplicate_query ::
  "env \<Rightarrow> database \<Rightarrow> js_string option \<Rightarrow> string
     \<Rightarrow> report list option \<times> pg_error option" where
  "duplicate_query env db plateNumber' violationType' =
     (let twoHoursAgo = Date_now env - 2 * 60 * 60 * 1000
      in case request_fault env 0 of
           Some e \<Rightarrow> (None, Some e)
         | None \<Rightarrow>
             (Some (take 1
                (filter (\<lambda>r. eq_filter (plate_number r)
                               (map_option (toUpperCase (unicode_upper env)) plateNumber')
                             \<and> violation_type r = violationType'
                             \<and> twoHoursAgo * 1000 \<le> reported_at r)
                   (select_reports (auth_user env) db))),
              None))"

definition checkDuplicate ::
  "env \<Rightarrow> database \<Rightarrow> js_string option \<Rightarrow> rat option \<Rightarrow> rat option \<Rightarrow> string
     \<Rightarrow> duplicate_check" where
  "checkDuplicate env db plateNumber' latitude' longitude' violationType' =
     (case duplicate_query env db plateNumber' violationType' of
        (data, Some e) \<Rightarrow> \<lparr>isDuplicate = False, error = Some e\<rparr>
      | (data, None) \<Rightarrow>
          \<lparr>isDuplicate = (case data of None \<Rightarrow> False | Some rows \<Rightarrow> 0 < length rows),
           error = None\<rparr>)"

text \<open>
  \<open>check_duplicate_report\<close>, the function in the database. A comparison with NULL is
  NULL, and WHERE keeps the rows whose condition is true: a NULL argument or a NULL
  column value keeps no row. The function runs with the rights of its caller.
\<close>

definition sql_eq :: "'a option \<Rightarrow> 'a option \<Rightarrow> bool option" where
  "sql_eq a b = (case (a, b) of (Some x, Some y) \<Rightarrow> Some (x = y) | _ \<Rightarrow> None)"

definition sql_near :: "rat option \<Rightarrow> rat option \<Rightarrow> bool option" where
  "sql_near a b = (case (a, b) of (Some x, Some y) \<Rightarrow> Some (\<bar>x - y\<bar> < 1 / 1000) | _ \<Rightarrow> None)"

definition is_true :: "bool option \<Rightarrow> bool" where
  "is_true b = (b = Some True)"

definition check_duplicate_report ::
  "env \<Rightarrow> database \<Rightarrow> js_string option \<Rightarrow> rat option \<Rightarrow> rat option \<Rightarrow> string option
     \<Rightarrow> bool" where
  "check_duplicate_report env db p_plate p_lat p_lng p_violation_type =
     (let existing_count =
            length (filter (\<lambda>r. is_true (sql_eq (plate_number r) p_plate)
                               \<and> is_true (sql_eq (Some (violation_type r)) p_violation_type)
                               \<and> server_now env - 2 * 60 * 60 * 1000000 < reported_at r
                               \<and> is_true (sql_near (latitude r) p_lat)
                               \<and> is_true (sql_near (longitude r) p_lng))
                      (select_reports (auth_user env) db))
      in 0 < existing_count)"

text \<open>\<open>calculate_reward\<close>, the function in the database: exact decimal arithmetic.\<close>

definition calculate_reward :: "int \<Rightarrow> rat" where
  "calculate_reward fine' = pg_round 2 (of_int fine' * (10 / 100))"

subsection \<open>UPDATE on \<open>reports\<close>\<close>

text \<open>
  The repository has no client function that updates a report; the statement is the
  one a client can send with its own key. \<open>wh\<close> is the WHERE clause and \<open>f\<close> the SET
  clause. The statement operates on the rows that the select policy and the USING
  expression of the update policy admit. The update policy has no WITH CHECK
  expression, and PostgreSQL then applies its USING expression to the new row as well:
  a new row that fails it aborts the statement. The constraints come after the policy;
  the table is taken to satisfy its primary key before the statement.
\<close>

definition update_reports ::
  "uuid option \<Rightarrow> (report \<Rightarrow> bool) \<Rightarrow> (report \<Rightarrow> report) \<Rightarrow> database
     \<Rightarrow> pg_error + (report list \<times> database)" where
  "update_reports uid wh f db =
     (let target = (\<lambda>r. view_own_reports uid r \<and> update_own_pending_reports uid r \<and> wh r);
          new_rows = map f (filter target (reports db));
          table = map (\<lambda>r. if target r then f r else r) (reports db)
      in if list_ex (\<lambda>r. \<not> update_own_pending_reports uid r) new_rows
         then Inl RowSecurityViolation
         else if list_ex (\<lambda>r. \<not> status_check r) new_rows then Inl CheckViolation
         else if \<not> distinct (map report_id table) then Inl UniqueViolation
         else if list_ex (\<lambda>r. user_id r \<notin> set (profiles db)) new_rows
           then Inl ForeignKeyViolation
         else if list_ex (\<lambda>r. catalog db (violation_type r) = None) new_rows
           then Inl ForeignKeyViolation
         else Inr (new_rows, db\<lparr>reports := table\<rparr>))"

section \<open>Example data\<close>

text \<open>
  Two users; the first is signed in and no request fails. The database holds the
  seeded catalog and no report yet. Of the upper-case table beyond ASCII the examples
  need the entry of the sharp s.
\<close>

definition sharp_s_table :: "int \<Rightarrow> int list" where
  "sharp_s_table c = (if c = 223 then [83, 83] else [c])"

definition alice_env :: env where
  "alice_env =
     \<lparr>auth_user = Some ''alice'', server_now = 7200000000, Date_now = 7200000,
      uuid_generate_v4 = ''r1'', request_fault = (\<lambda>k. None),
      unicode_upper = sharp_s_table\<rparr>"

definition empty_db :: database where
  "empty_db =
     \<lparr>profiles = [''alice'', ''bob''], violation_types = seeded_violation_types, reports = []\<rparr>"

text \<open>A caller that also passes a status: the property is not one the function reads.\<close>

record args_with_status = create_args +
  arg_status :: string

definition bike_args :: args_with_status where
  "bike_args =
     \<lparr>violationType = ''bike'', arg_latitude = None, arg_longitude = None,
      locationText = Some ''Brooklyn, NY'', photoUrl = None, plateNumber = Some (ascii ''abc-1234''),
      arg_status = ''approved''\<rparr>"

definition bike_report :: report where
  "bike_report =
     \<lparr>report_id = ''r1'', user_id = ''alice'', violation_type = ''bike'',
      latitude = None, longitude = None, location_text = Some ''Brooklyn, NY'',
      photo_url = None, plate_number = Some (ascii ''ABC-1234''), status = Some ''pending'',
      rejection_reason = None, fine_amount = Some 175, reward_amount = Some (35 / 2),
      paid_out = Some False, paid_out_at = None, reported_at = 7200000000,
      reviewed_at = None, created_at = 7200000000, updated_at = 7200000000\<rparr>"

text \<open>The same submission with the plate \<open>stra\<close>, sharp s, \<open>e-1\<close>.\<close>

definition strasse_args :: create_args where
  "strasse_args =
     \<lparr>violationType = ''bike'', arg_latitude = None, arg_longitude = None,
      locationText = Some ''Brooklyn, NY'', photoUrl = None,
      plateNumber = Some (ascii ''stra'' @ [223] @ ascii ''e-1'')\<rparr>"



text \<open>A catalog with a kind whose fine is 0, and a submission for it.\<close>

definition warning_db :: database where
  "warning_db =
     \<lparr>profiles = [''alice'', ''bob''],
      violation_types = seeded_violation_types
        @ [(''warning'', \<lparr>label = ''Warning'', fine = 0, description = None\<rparr>)],
      reports = []\<rparr>"

definition warning_args :: create_args where
  "warning_args =
     \<lparr>violationType = ''warning'', arg_latitude = None, arg_longitude = None,
      locationText = Some ''Brooklyn, NY'', photoUrl = None, plateNumber = None\<rparr>"

text \<open>
  Ten minutes after the example submission: its report is stored, with a location, and
  the same user is signed in. \<open>offline_env\<close> is the same moment with every request
  failing.
\<close>

definition located_report :: report where
  "located_report =
     bike_report\<lparr>latitude := Some (406782 / 10000), longitude := Some (- (739442 / 10000))\<rparr>"

definition located_db :: database where
  "located_db = empty_db\<lparr>reports := [located_report]\<rparr>"

definition later_env :: env where
  "later_env =
     \<lparr>auth_user = Some ''alice'', server_now = 7800000000, Date_now = 7800000,
      uuid_generate_v4 = ''r2'', request_fault = (\<lambda>k. None),
      unicode_upper = sharp_s_table\<rparr>"

definition offline_env :: env where
  "offline_env = later_env\<lparr>request_fault := (\<lambda>k. Some RequestFailed)\<rparr>"

text \<open>
  The first three rows of the sample data in the schema: one approved, one pending and
  one rejected report of the same user, read on the tenth day.
\<close>

definition sample_report ::
  "uuid \<Rightarrow> string \<Rightarrow> string \<Rightarrow> string \<Rightarrow> string \<Rightarrow> int \<Rightarrow> rat \<Rightarrow> timestamptz \<Rightarrow> report" where
  "sample_report rid vt loc plate st fa ra t =
     \<lparr>report_id = rid, user_id = ''alice'', violation_type = vt,
      latitude = None, longitude = None, location_text = Some loc,
      photo_url = None, plate_number = Some (ascii plate), status = Some st,
      rejection_reason = None, fine_amount = Some fa, reward_amount = Some ra,
      paid_out = Some False, paid_out_at = None, reported_at = t,
      reviewed_at = None, created_at = t, updated_at = t\<rparr>"

definition approved_sample :: report where
  "approved_sample =
     sample_report ''s1'' ''bike'' ''5th Ave & 9th St'' ''ABC-1234'' ''approved'' 175 (35 / 2)
       604800000000"

definition pending_sample :: report where
  "pending_sample =
     sample_report ''s2'' ''hydrant'' ''7th Ave & Carroll St'' ''XYZ-5678'' ''pending'' 115 (23 / 2)
       777600000000"

definition rejected_sample :: report where
  "rejected_sample =
     sample_report ''s3'' ''crosswalk'' ''Court St & Atlantic Ave'' ''JKL-7890'' ''rejected'' 115 0
       432000000000"

definition sample_db :: database where
  "sample_db = empty_db\<lparr>reports := [approved_sample, pending_sample, rejected_sample]\<rparr>"

definition sample_env :: env where
  "sample_env =
     \<lparr>auth_user = Some ''alice'', server_now = 864000000000, Date_now = 864000000,
      uuid_generate_v4 = ''s4'', request_fault = (\<lambda>k. None),
      unicode_upper = sharp_s_table\<rparr>"

text \<open>
  Clauses of an UPDATE: the row with a given id; a new status; a new plate (the
  example of the schema's comment on the update policy).
\<close>

definition by_id :: "uuid \<Rightarrow> report \<Rightarrow> bool" where
  "by_id rid r = (report_id r = rid)"

definition set_status :: "string \<Rightarrow> report \<Rightarrow> report" where
  "set_status s r = r\<lparr>status := Some s\<rparr>"

definition set_plate :: "string \<Rightarrow> report \<Rightarrow> report" where
  "set_plate p r = r\<lparr>plate_number := Some (ascii p)\<rparr>"

text \<open>An UPDATE without a WHERE clause.\<close>

definition all_rows :: "report \<Rightarrow> bool" where
  "all_rows r = True"

text \<open>
  A user whose three approved reports have the rewards 0.10, 0.20 and 0.30, for kinds
  with the fines 1, 2 and 3; the latest report is the one of 0.10.
\<close>

definition dimes_db :: database where
  "dimes_db =
     \<lparr>profiles = [''alice'', ''bob''],
      violation_types =
        [(''small'', \<lparr>label = ''Small'', fine = 1, description = None\<rparr>),
         (''medium'', \<lparr>label = ''Medium'', fine = 2, description = None\<rparr>),
         (''large'', \<lparr>label = ''Large'', fine = 3, description = None\<rparr>)],
      reports =
        [sample_report ''d1'' ''small'' ''5th Ave & 9th St'' ''ABC-1234'' ''approved'' 1 (1 / 10)
           777600000000,
         sample_report ''d2'' ''medium'' ''7th Ave & Carroll St'' ''XYZ-5678'' ''approved'' 2
           (2 / 10) 604800000000,
         sample_report ''d3'' ''large'' ''Court St & Atlantic Ave'' ''JKL-7890'' ''approved'' 3
           (3 / 10) 432000000000]\<rparr>"

text \<open>The other user signed in, at the same moment as \<open>later_env\<close>.\<close>

definition bob_env :: env where
  "bob_env = later_env\<lparr>auth_user := Some ''bob''\<rparr>"

text \<open>The database without one of its reports.\<close>

definition without_report :: "report \<Rightarrow> database \<Rightarrow> database" where
  "without_report r db = db\<lparr>reports := filter (\<lambda>x. x \<noteq> r) (reports db)\<rparr>"

section \<open>The summary as the specification words it\<close>

text \<open>
  The reports of an identity, those of them with a given status, and the sum of the
  rewards of a list of reports (a report without a reward adds nothing).
\<close>

definition reports_of :: "report list \<Rightarrow> uuid \<Rightarrow> report list" where
  "reports_of rows u = filter (\<lambda>r. user_id r = u) rows"

definition reports_with_status :: "string \<Rightarrow> report list \<Rightarrow> uuid \<Rightarrow> report list" where
  "reports_with_status s rows u = filter (\<lambda>r. status r = Some s) (reports_of rows u)"

definition reward_sum :: "report list \<Rightarrow> rat" where
  "reward_sum rs = sum_list (map (\<lambda>r. case reward_amount r of None \<Rightarrow> 0 | Some x \<Rightarrow> x) rs)"

text \<open>The success rate: approved over total, times 100, to one decimal; 0 without reports.\<close>

definition spec_success_rate :: "nat \<Rightarrow> nat \<Rightarrow> rat" where
  "spec_success_rate n_approved n_total =
     (if n_total = 0 then 0 else pg_round 1 (of_nat n_approved / of_nat n_total * 100))"

section \<open>Rounding\<close>

text \<open>
  What the model of doubles and decimals gives: rounding to a double moves a number by
  at most one part in \<open>2 ^ 53\<close>; the JSON text of a double lies as close to it; and
  so a tenth of a fine, computed in doubles and stored in a \<open>decimal(10, 2)\<close> column,
  is the exact tenth that \<open>calculate_reward\<close> computes.
\<close>

lemma ndigits_bounds:
  "1 < b \<Longrightarrow> 0 < n \<Longrightarrow> 1 \<le> ndigits b n \<and> b ^ nat (ndigits b n - 1) \<le> n \<and> n < b ^ nat (ndigits b n)"
proof (induction b n rule: ndigits.induct)
  case (1 b n)
  then have step: "ndigits b n = ndigits b (n div b) + 1"
    by (subst ndigits.simps) simp
  show ?case
  proof (cases "n div b = 0")
    case True
    then have "ndigits b (n div b) = 0"
      by (subst ndigits.simps) simp
    moreover have "n < b"
    proof -
      have "n = b * (n div b) + n mod b" by simp
      with True have "n = n mod b" by simp
      moreover have "n mod b < b" using 1(2) by simp
      ultimately show ?thesis by simp
    qed
    ultimately show ?thesis
      using 1(3) by (simp add: step)
  next
    case False
    moreover have "0 \<le> n div b"
      using 1(2,3) by (simp add: pos_imp_zdiv_nonneg_iff)
    ultimately have pos: "0 < n div b"
      by simp
    with 1 have IH: "1 \<le> ndigits b (n div b)" "b ^ nat (ndigits b (n div b) - 1) \<le> n div b"
      "n div b < b ^ nat (ndigits b (n div b))"
      by auto
    let ?k = "ndigits b (n div b)"
    have exp: "nat ?k = Suc (nat (?k - 1))"
      using IH(1) by simp
    have eq: "n = b * (n div b) + n mod b"
      by simp
    have m: "0 \<le> n mod b" "n mod b < b"
      using 1(2) by simp_all
    have lo: "b * (n div b) \<le> n"
      using eq m(1) by linarith
    have "b * (n div b + 1) = b * (n div b) + b"
      by (simp add: algebra_simps)
    then have hi: "n < b * (n div b + 1)"
      using eq m(2) by linarith
    have "b ^ nat ?k \<le> b * (n div b)"
      using IH(2) 1(2) by (simp add: exp)
    with lo have A: "b ^ nat ?k \<le> n" by simp
    have "b * (n div b + 1) \<le> b * b ^ nat ?k"
      using IH(3) 1(2) by simp
    with hi have B: "n < b ^ Suc (nat ?k)" by simp
    have "nat (?k + 1) = Suc (nat ?k)" using IH(1) by simp
    with A B IH(1) show ?thesis
      by (simp add: step)
  qed
qed

lemma ndigits_powi:
  assumes "0 < n"
  shows "(2::rat) powi (ndigits 2 n - 1) \<le> of_int n" and "of_int n < (2::rat) powi (ndigits 2 n)"
proof -
  from ndigits_bounds[of 2 n] assms
  have k: "1 \<le> ndigits 2 n" and lo: "2 ^ nat (ndigits 2 n - 1) \<le> n" and hi: "n < 2 ^ nat (ndigits 2 n)"
    by auto
  have "(2::rat) powi (ndigits 2 n - 1) = 2 ^ nat (ndigits 2 n - 1)"
    using k by (simp add: power_int_nonneg_exp)
  also have "\<dots> = of_int (2 ^ nat (ndigits 2 n - 1))" by simp
  also have "\<dots> \<le> of_int n" using lo by (simp only: of_int_le_iff)
  finally show "(2::rat) powi (ndigits 2 n - 1) \<le> of_int n" .
  have "(of_int n :: rat) < of_int (2 ^ nat (ndigits 2 n))"
    using hi by (simp only: of_int_less_iff)
  also have "\<dots> = 2 powi (ndigits 2 n)"
    using k by (simp add: power_int_nonneg_exp)
  finally show "of_int n < (2::rat) powi (ndigits 2 n)" .
qed


lemma ilog2_bounds:
  assumes "x \<noteq> 0"
  shows "2 powi (ilog 2 x) \<le> \<bar>x\<bar>" and "\<bar>x\<bar> < 2 powi (ilog 2 x + 1)"
proof -
  obtain p q where pq: "quotient_of \<bar>x\<bar> = (p, q)"
    by (cases "quotient_of \<bar>x\<bar>")
  then have q: "0 < q" and frac: "\<bar>x\<bar> = of_int p / of_int q"
    by (simp_all add: quotient_of_denom_pos quotient_of_div)
  from assms have "0 < \<bar>x\<bar>" by simp
  with frac q have p: "0 < p"
    by (simp add: zero_less_divide_iff)
  define d where "d = ndigits 2 p - ndigits 2 q"
  have il: "ilog 2 x = (if 2 powi d \<le> \<bar>x\<bar> then d else d - 1)"
    by (simp add: ilog_def pq d_def Let_def)
  have Q: "(0::rat) < of_int q" using q by simp
  have xq: "\<bar>x\<bar> * of_int q = of_int p"
    using frac q by simp
  have up: "\<bar>x\<bar> < 2 powi (d + 1)"
  proof -
    have "(2::rat) powi (d + 1) * 2 powi (ndigits 2 q - 1) = 2 powi (ndigits 2 p)"
      by (simp add: d_def power_int_add [symmetric])
    moreover have "(2::rat) powi (d + 1) * 2 powi (ndigits 2 q - 1) \<le> 2 powi (d + 1) * of_int q"
      using ndigits_powi(1)[OF q] by (intro mult_left_mono) simp_all
    ultimately have "of_int p < (2::rat) powi (d + 1) * of_int q"
      using ndigits_powi(2)[OF p] by linarith
    with xq have "\<bar>x\<bar> * of_int q < 2 powi (d + 1) * of_int q" by simp
    with Q show ?thesis by simp
  qed
  have low: "2 powi (d - 1) < \<bar>x\<bar>"
  proof -
    have "(2::rat) powi (d - 1) * 2 powi (ndigits 2 q) = 2 powi (ndigits 2 p - 1)"
      by (simp add: d_def power_int_add [symmetric])
    moreover have "(2::rat) powi (d - 1) * of_int q < 2 powi (d - 1) * 2 powi (ndigits 2 q)"
      using ndigits_powi(2)[OF q] by (intro mult_strict_left_mono) simp_all
    ultimately have "(2::rat) powi (d - 1) * of_int q < of_int p"
      using ndigits_powi(1)[OF p] by linarith
    with xq have "2 powi (d - 1) * of_int q < \<bar>x\<bar> * of_int q" by simp
    with Q show ?thesis by simp
  qed
  show "2 powi (ilog 2 x) \<le> \<bar>x\<bar>"
    using low by (simp add: il)
  show "\<bar>x\<bar> < 2 powi (ilog 2 x + 1)"
    using up by (auto simp: il not_le)
qed

lemma round_half_even_error: "\<bar>of_int (round_half_even y) - y\<bar> \<le> 1 / 2"
proof -
  have "of_int \<lfloor>y\<rfloor> \<le> y" "y < of_int \<lfloor>y\<rfloor> + 1"
    by linarith+
  then show ?thesis
    by (auto simp: round_half_even_def Let_def abs_le_iff)
qed

lemma to_double_error:
  assumes "x \<noteq> 0"
  shows "\<bar>to_double x - x\<bar> \<le> \<bar>x\<bar> / 2 ^ 53"
proof -
  define e where "e = ilog 2 x - 52"
  define y where "y = x / 2 powi e"
  have pos: "(0::rat) < 2 powi e" by simp
  have x: "x = y * 2 powi e"
    by (simp add: y_def)
  have td: "to_double x = of_int (round_half_even y) * 2 powi e"
    using assms by (simp add: to_double_def e_def y_def Let_def)
  have "to_double x - y * 2 powi e = (of_int (round_half_even y) - y) * 2 powi e"
    by (simp add: td algebra_simps)
  with x have "to_double x - x = (of_int (round_half_even y) - y) * 2 powi e"
    by simp
  then have "\<bar>to_double x - x\<bar> = \<bar>of_int (round_half_even y) - y\<bar> * 2 powi e"
    by (simp add: abs_mult)
  also have "\<dots> \<le> 1 / 2 * 2 powi e"
    using round_half_even_error[of y] by (intro mult_right_mono) simp_all
  also have "\<dots> = 2 powi (ilog 2 x) / 2 ^ 53"
  proof -
    have "(2::rat) powi e = 2 powi (ilog 2 x) / 2 powi 52"
      unfolding e_def by (rule power_int_diff) simp
    then show ?thesis by simp
  qed
  also have "\<dots> \<le> \<bar>x\<bar> / 2 ^ 53"
    using ilog2_bounds(1)[OF assms] by (simp add: divide_right_mono)
  finally show ?thesis .
qed

lemma json_candidates_read_back:
  "d \<in> set (json_candidates k v) \<Longrightarrow> to_double d = v"
  by (auto simp: json_candidates_def Let_def split: if_splits)

lemma number_to_json_cases:
  "number_to_json v = v \<or> to_double (number_to_json v) = v"
proof (cases "v = 0")
  case True
  then show ?thesis by (simp add: number_to_json_def)
next
  case False
  show ?thesis
  proof (cases "find (\<lambda>k. json_candidates k v \<noteq> []) [1..<18]")
    case None
    with False show ?thesis by (simp add: number_to_json_def)
  next
    case (Some k)
    show ?thesis
    proof (cases "json_candidates k v")
      case Nil
      with False Some show ?thesis by (simp add: number_to_json_def)
    next
      case (Cons d ds)
      then have "to_double d = v"
        by (intro json_candidates_read_back[of d k v]) simp
      with False Some Cons show ?thesis by (simp add: number_to_json_def)
    qed
  qed
qed

lemma half_ulp_arith:
  fixes a b :: rat
  shows "a * 9007199254740992 \<le> b + a \<Longrightarrow> 0 \<le> a \<Longrightarrow> a * 4503599627370496 \<le> b"
  by linarith

lemma number_to_json_error:
  "\<bar>number_to_json v - v\<bar> \<le> \<bar>v\<bar> / 2 ^ 52"
proof -
  consider "number_to_json v = v" | "to_double (number_to_json v) = v" "number_to_json v \<noteq> 0"
    | "number_to_json v = 0" "to_double (number_to_json v) = v"
    using number_to_json_cases by blast
  then show ?thesis
  proof cases
    case 1
    then show ?thesis by simp
  next
    case 2
    define d where "d = number_to_json v"
    from 2 have "\<bar>v - d\<bar> \<le> \<bar>d\<bar> / 2 ^ 53"
      using to_double_error[of d] by (simp add: d_def)
    moreover have "\<bar>d\<bar> \<le> \<bar>v\<bar> + \<bar>v - d\<bar>"
      by linarith
    ultimately have "\<bar>v - d\<bar> * 9007199254740992 \<le> \<bar>v\<bar> + \<bar>v - d\<bar>"
      by (simp add: field_simps)
    moreover have "0 \<le> \<bar>v - d\<bar>"
      by simp
    ultimately have "\<bar>v - d\<bar> * 4503599627370496 \<le> \<bar>v\<bar>"
      by (rule half_ulp_arith)
    then have "\<bar>v - d\<bar> \<le> \<bar>v\<bar> / 2 ^ 52"
      by (simp add: field_simps)
    then show ?thesis
      by (simp add: d_def abs_minus_commute)
  next
    case 3
    then have "v = 0" by (simp add: to_double_def)
    with 3 show ?thesis by simp
  qed
qed


lemma js_0_10_value: "js_0_10 = 3602879701896397 / 36028797018963968"
  unfolding js_0_10_def by code_simp

lemma rewardAmount_near:
  assumes "f \<noteq> 0" and "\<bar>f\<bar> < 2 ^ 31"
  shows "\<bar>number_to_json (rewardAmount f) - of_int f / 10\<bar> < 1 / 200"
proof -
  define F :: rat where "F = \<bar>of_int f\<bar>"
  define x :: rat where "x = of_int f * js_0_10"
  define v where "v = to_double x"
  define d where "d = number_to_json v"
  have F: "1 \<le> F" "F < 2147483648"
  proof -
    from assms(1) have "1 \<le> \<bar>f\<bar>" by simp
    then have "(of_int 1 :: rat) \<le> of_int \<bar>f\<bar>" by (simp only: of_int_le_iff)
    then show "1 \<le> F" by (simp add: F_def)
    from assms(2) have "(of_int \<bar>f\<bar> :: rat) < of_int (2 ^ 31)" by (simp only: of_int_less_iff)
    then show "F < 2147483648" by (simp add: F_def)
  qed
  have x0: "x \<noteq> 0"
    using assms(1) by (simp add: x_def js_0_10_value)
  have "x - of_int f / 10 = of_int f * (1 / 180143985094819840)"
    by (simp add: x_def js_0_10_value field_simps)
  then have "\<bar>x - of_int f / 10\<bar> = \<bar>of_int f * (1 / 180143985094819840)\<bar>"
    by (simp only:)
  also have "\<dots> = F / 180143985094819840"
    by (simp add: abs_mult F_def)
  finally have e1: "\<bar>x - of_int f / 10\<bar> = F / 180143985094819840" .
  have ax: "\<bar>x\<bar> = F * (3602879701896397 / 36028797018963968)"
    by (simp add: x_def js_0_10_value abs_mult F_def)
  have e2: "\<bar>v - x\<bar> \<le> \<bar>x\<bar> / 9007199254740992"
    using to_double_error[OF x0] by (simp add: v_def)
  have e3: "\<bar>d - v\<bar> \<le> \<bar>v\<bar> / 4503599627370496"
    using number_to_json_error[of v] by (simp add: d_def)
  have "\<bar>x\<bar> < 268435456"
    using F by (simp add: ax)
  with e2 have b2: "\<bar>v - x\<bar> < 1 / 1000000"
    by simp
  have "\<bar>v\<bar> \<le> \<bar>x\<bar> + \<bar>v - x\<bar>"
    by linarith
  with \<open>\<bar>x\<bar> < 268435456\<close> b2 have "\<bar>v\<bar> < 268435457"
    by linarith
  with e3 have b3: "\<bar>d - v\<bar> < 1 / 1000000"
    by simp
  from e1 F have b1: "\<bar>x - of_int f / 10\<bar> < 1 / 1000000"
    by simp
  have "\<bar>d - of_int f / 10\<bar> \<le> \<bar>d - v\<bar> + \<bar>v - x\<bar> + \<bar>x - of_int f / 10\<bar>"
    by linarith
  with b1 b2 b3 have "\<bar>d - of_int f / 10\<bar> < 1 / 200"
    by linarith
  then show ?thesis
    by (simp add: d_def v_def x_def rewardAmount_def js_mul_def)
qed

lemma pg_round_2_near:
  assumes "\<bar>d - of_int f / 10\<bar> < 1 / 200"
  shows "pg_round 2 d = of_int f / 10"
proof -
  define g :: rat where "g = of_int f"
  from assms have "\<bar>d - g / 10\<bar> < 1 / 200"
    by (simp only: g_def)
  then have "d - g / 10 < 1 / 200" and "- (d - g / 10) < 1 / 200"
    unfolding abs_less_iff by blast+
  then have "10 * g - 1 / 2 < d * 100" and "d * 100 < 10 * g + 1 / 2"
    by linarith+
  then have lo: "of_int (10 * f) - 1 / 2 < d * 100" and hi: "d * 100 < of_int (10 * f) + 1 / 2"
    by (simp_all add: g_def)
  show ?thesis
  proof (cases "0 \<le> d")
    case True
    have "\<lfloor>d * 100 + 1 / 2\<rfloor> = 10 * f"
      using lo hi by (intro floor_unique) simp_all
    with True show ?thesis
      by (simp add: pg_round_def)
  next
    case False
    have "\<lfloor>- d * 100 + 1 / 2\<rfloor> = - (10 * f)"
      using lo hi by (intro floor_unique) simp_all
    with False show ?thesis
      by (simp add: pg_round_def)
  qed
qed

lemma calculate_reward_tenth: "calculate_reward f = of_int f / 10"
  unfolding calculate_reward_def by (rule pg_round_2_near) simp

lemma stored_reward:
  assumes "f \<noteq> 0" and "\<bar>f\<bar> < 2 ^ 31"
  shows "pg_round 2 (number_to_json (rewardAmount f)) = calculate_reward f"
  using rewardAmount_near[OF assms] by (simp add: pg_round_2_near calculate_reward_tenth)

section \<open>Report submission\<close>

subsection \<open>The rows \<open>createReport\<close> stores\<close>

lemma json_decimal_Some:
  "json_decimal p s (Some x) = Inr d \<Longrightarrow> d = Some (pg_round s (number_to_json x))"
  by (auto simp: json_decimal_def pg_decimal_def Let_def split: if_splits)

lemma new_report_fields:
  assumes "new_report env uid args fa ra = Inr r"
  shows "status r = Some ''pending''"
    and "user_id r = uid"
    and "plate_number r = map_option (toUpperCase (unicode_upper env)) (plateNumber args)"
    and "fine_amount r = Some fa"
    and "reward_amount r = Some (pg_round 2 (number_to_json ra))"
    and "violation_type r = violationType args"
  using assms
  by (auto simp: new_report_def dest: json_decimal_Some split: sum.splits)

lemma insert_report_rows:
  "insert_report uid r db = Inr db' \<Longrightarrow> db' = db\<lparr>reports := reports db @ [r]\<rparr>"
  by (auto simp: insert_report_def split: if_splits option.splits)

text \<open>A call leaves the database as it was, or it has stored exactly one row.\<close>

lemma createReport_cases:
  "snd (createReport env db args) = db \<or>
   (\<exists>uid r. auth_user env = Some uid \<and> request_fault env 1 = None \<and>
      new_report env uid args (fineAmount (violationData env db (violationType args)))
             (rewardAmount (fineAmount (violationData env db (violationType args)))) = Inr r
      \<and> insert_report (Some uid) r db = Inr (db\<lparr>reports := reports db @ [r]\<rparr>)
      \<and> createReport env db args = (Returns (Some r, None), db\<lparr>reports := reports db @ [r]\<rparr>))"
proof (cases "auth_user env")
  case None
  then show ?thesis by (simp add: createReport_def)
next
  case (Some uid)
  show ?thesis
  proof (cases "request_fault env 1")
    case (Some e)
    with \<open>auth_user env = Some uid\<close> show ?thesis by (simp add: createReport_def Let_def)
  next
    case None
    let ?fa = "fineAmount (violationData env db (violationType args))"
    show ?thesis
    proof (cases "new_report env uid args ?fa (rewardAmount ?fa)")
      case (Inl e)
      with None \<open>auth_user env = Some uid\<close> show ?thesis by (simp add: createReport_def Let_def)
    next
      case (Inr r)
      show ?thesis
      proof (cases "insert_report (Some uid) r db")
        case (Inl e)
        with Inr None \<open>auth_user env = Some uid\<close> show ?thesis
          by (simp add: createReport_def Let_def)
      next
        case (Inr db')
        then have "db' = db\<lparr>reports := reports db @ [r]\<rparr>" by (rule insert_report_rows)
        with Inr \<open>new_report env uid args ?fa (rewardAmount ?fa) = Inr r\<close> None
          \<open>auth_user env = Some uid\<close> show ?thesis
          by (simp add: createReport_def Let_def)
      qed
    qed
  qed
qed

lemma createReport_new_row:
  assumes "r \<in> set (reports (snd (createReport env db args)))" and "r \<notin> set (reports db)"
  shows "\<exists>uid. auth_user env = Some uid \<and>
           new_report env uid args (fineAmount (violationData env db (violationType args)))
             (rewardAmount (fineAmount (violationData env db (violationType args)))) = Inr r
         \<and> insert_report (Some uid) r db = Inr (db\<lparr>reports := reports db @ [r]\<rparr>)"
  using createReport_cases[of env db args] assms by auto

text \<open>The example submission: a bike lane report with the plate \<open>abc-1234\<close>.\<close>

lemma createReport_bike_result:
  "fst (createReport alice_env empty_db bike_args) = Returns (Some bike_report, None)"
  by code_simp

lemma createReport_bike_rows:
  "reports (snd (createReport alice_env empty_db bike_args)) = [bike_report]"
  by code_simp

subsection \<open>Initial status\<close>

text \<open>
  Claim C2. Whatever the arguments of \<open>createReport\<close> are, including any property
  beyond the six it reads (the argument record is arbitrary in its extension, where a
  caller's \<open>status\<close> would be), every row that the call adds to \<open>reports\<close> has the
  status \<open>pending\<close>.
\<close>

theorem createReport_status_pending:
  "r \<in> set (reports (snd (createReport env db args))) \<Longrightarrow> r \<notin> set (reports db)
     \<Longrightarrow> status r = Some ''pending''"
  using createReport_new_row new_report_fields(1) by blast

theorem createReport_status_pending_witness:
  "bike_report \<in> set (reports (snd (createReport alice_env empty_db bike_args)))
   \<and> bike_report \<notin> set (reports empty_db)
   \<and> arg_status bike_args = ''approved''
   \<and> status bike_report = Some ''pending''"
proof -
  have new: "bike_report \<in> set (reports (snd (createReport alice_env empty_db bike_args)))"
    by (simp add: createReport_bike_rows)
  have old: "bike_report \<notin> set (reports empty_db)"
    by (simp add: empty_db_def)
  have "arg_status bike_args = ''approved''"
    by (simp add: bike_args_def)
  with new old createReport_status_pending [OF new old] show ?thesis
    by blast
qed

subsection \<open>The plate\<close>

lemma concat_singletons: "concat (map (\<lambda>c. [g c]) p) = map g p"
  by (induction p) simp_all

lemma toUpperCase_explicit:
  "toUpperCase table p
     = concat (map (\<lambda>c. if c < 128 then [if 97 \<le> c \<and> c \<le> 122 then c - 32 else c] else table c) p)"
  unfolding toUpperCase_def
  by (rule arg_cong[where f = concat], rule map_cong) (simp_all add: upper_code_point_def)

lemma toUpperCase_ascii:
  assumes "\<forall>c\<in>set p. c < 128"
  shows "toUpperCase table p = map (\<lambda>c. if 97 \<le> c \<and> c \<le> 122 then c - 32 else c) p"
proof -
  have m: "map (upper_code_point table) p
          = map (\<lambda>c. [if 97 \<le> c \<and> c \<le> 122 then c - 32 else c]) p"
    using assms by (intro map_cong) (simp_all add: upper_code_point_def)
  show ?thesis
    unfolding toUpperCase_def m concat_singletons by (rule refl)
qed

lemma createReport_sharp_s:
  "map plate_number (reports (snd (createReport alice_env empty_db strasse_args)))
     = [Some (ascii ''STRASSE-1'')]"
  by code_simp

text \<open>
  Claim C9. When a plate string is given, every row that \<open>createReport\<close> adds holds
  its upper-cased form in \<open>plate_number\<close>: every ASCII code point is replaced by its
  capital if it is a small letter and kept otherwise, and every other code point by
  its upper-case mapping. For an ASCII plate that is a string of the same length
  without small letters, which differs from the plate only where the plate has a small
  letter and has its capital there. The plate \<open>abc-1234\<close> is stored as \<open>ABC-1234\<close>.
\<close>

theorem createReport_plate_upper_case:
  assumes "r \<in> set (reports (snd (createReport env db args)))" and "r \<notin> set (reports db)"
    and "plateNumber args = Some p"
  shows "\<exists>q. plate_number r = Some q
           \<and> q = concat (map (\<lambda>c. if c < 128 then [if 97 \<le> c \<and> c \<le> 122 then c - 32 else c]
                                   else unicode_upper env c) p)
           \<and> ((\<forall>c\<in>set p. c < 128) \<longrightarrow>
                 length q = length p
               \<and> (\<forall>c\<in>set q. c < 97 \<or> 122 < c)
               \<and> (\<forall>i<length p. q ! i = p ! i
                                \<or> (97 \<le> p ! i \<and> p ! i \<le> 122 \<and> q ! i = p ! i - 32)))"
proof -
  let ?q = "toUpperCase (unicode_upper env) p"
  from createReport_new_row[OF assms(1,2)] obtain uid fa ra
    where "new_report env uid args fa ra = Inr r"
    by blast
  from new_report_fields(3)[OF this] assms(3) have stored: "plate_number r = Some ?q"
    by simp
  have ascii_case: "length ?q = length p
               \<and> (\<forall>c\<in>set ?q. c < 97 \<or> 122 < c)
               \<and> (\<forall>i<length p. ?q ! i = p ! i
                                \<or> (97 \<le> p ! i \<and> p ! i \<le> 122 \<and> ?q ! i = p ! i - 32))"
    if "\<forall>c\<in>set p. c < 128"
  proof -
    have q: "?q = map (\<lambda>c. if 97 \<le> c \<and> c \<le> 122 then c - 32 else c) p"
      using that by (rule toUpperCase_ascii)
    show ?thesis
      unfolding q by auto
  qed
  from stored toUpperCase_explicit[of "unicode_upper env" p] ascii_case show ?thesis
    by blast
qed

theorem createReport_plate_upper_case_witness:
  "bike_report \<in> set (reports (snd (createReport alice_env empty_db bike_args)))
   \<and> bike_report \<notin> set (reports empty_db)
   \<and> plateNumber bike_args = Some (ascii ''abc-1234'')
   \<and> plate_number bike_report = Some (ascii ''ABC-1234'')
   \<and> (\<exists>q. plate_number bike_report = Some q \<and> length q = length (ascii ''abc-1234'')
           \<and> (\<forall>c\<in>set q. c < 97 \<or> 122 < c))
   \<and> map plate_number (reports (snd (createReport alice_env empty_db strasse_args)))
       = [Some (ascii ''STRASSE-1'')]"
proof -
  have new: "bike_report \<in> set (reports (snd (createReport alice_env empty_db bike_args)))"
    by (simp add: createReport_bike_rows)
  have old: "bike_report \<notin> set (reports empty_db)"
    by (simp add: empty_db_def)
  have plate: "plateNumber bike_args = Some (ascii ''abc-1234'')"
    by (simp add: bike_args_def)
  have stored: "plate_number bike_report = Some (ascii ''ABC-1234'')"
    by (simp add: bike_report_def)
  have "\<forall>c\<in>set (ascii ''abc-1234''). c < 128"
    by (simp add: ascii_def)
  with createReport_plate_upper_case [OF new old plate]
  have "\<exists>q. plate_number bike_report = Some q \<and> length q = length (ascii ''abc-1234'')
           \<and> (\<forall>c\<in>set q. c < 97 \<or> 122 < c)"
    by blast
  with new old plate stored createReport_sharp_s show ?thesis
    by blast
qed

subsection \<open>A kind that the catalog does not have\<close>


lemma insert_report_needs_kind:
  "insert_report uid r db = Inr db' \<Longrightarrow> catalog db (violation_type r) \<noteq> None"
  by (auto simp: insert_report_def violated_constraint_def split: if_splits option.splits)





subsection \<open>The reward\<close>

text \<open>
  Claim C1 says that the stored reward is \<open>round(fine \<times> 0.10, 2)\<close> for the fine the
  catalog has at submission time. For a kind whose fine in the catalog is 0, on which
  \<open>calculate_reward\<close> gives 0, \<open>createReport\<close> takes the catalog's 0 for a missing
  value: it stores the fine 115 and the reward 11.50.
\<close>

theorem createReport_zero_fine:
  "map_option fine (catalog warning_db (violationType warning_args)) = Some 0
   \<and> calculate_reward 0 = 0
   \<and> map fine_amount (reports (snd (createReport alice_env warning_db warning_args)))
       = [Some 115]
   \<and> map reward_amount (reports (snd (createReport alice_env warning_db warning_args)))
       = [Some (23 / 2)]"
  by code_simp

text \<open>
  For every other fine that an \<open>integer\<close> column holds, when the lookup request went
  through, the stored fine is the catalog's and the stored reward is its exact tenth.
\<close>

lemma createReport_reward:
  assumes "r \<in> set (reports (snd (createReport env db args)))" and "r \<notin> set (reports db)"
    and "request_fault env 0 = None" and "catalog db (violationType args) = Some vt"
    and "fine vt \<noteq> 0" and "\<bar>fine vt\<bar> < 2 ^ 31"
  shows "fine_amount r = Some (fine vt)" and "reward_amount r = Some (calculate_reward (fine vt))"
proof -
  have fa: "fineAmount (violationData env db (violationType args)) = fine vt"
    using assms(3-5) by (simp add: violationData_def fineAmount_def)
  from createReport_new_row[OF assms(1,2)] obtain uid
    where "new_report env uid args (fine vt) (rewardAmount (fine vt)) = Inr r"
    unfolding fa by blast
  from new_report_fields(4,5)[OF this]
  show "fine_amount r = Some (fine vt)" and "reward_amount r = Some (calculate_reward (fine vt))"
    by (simp_all add: stored_reward[OF assms(5,6)])
qed

text \<open>
  The reward of a stored report is a column of its row: what a client reads of it does
  not depend on the catalog, whose fine is read next to it.
\<close>

lemma getReportById_reward_frozen:
  "map_option (\<lambda>jr. reward_amount (fst jr)) (fst (getReportById env (db\<lparr>violation_types := c\<rparr>) rid))
     = map_option (\<lambda>jr. reward_amount (fst jr)) (fst (getReportById env db rid))"
proof -
  have "map (\<lambda>jr. reward_amount (fst jr)) (map (embed_violation_type db') rs) = map reward_amount rs"
    for db' rs
    by (simp add: embed_violation_type_def comp_def)
  then have "map_option (\<lambda>jr. reward_amount (fst jr)) (fst (single (map (embed_violation_type db') rs)))
               = fst (single (map reward_amount rs))" for db' rs
    by (cases rs rule: list.exhaust; cases "tl rs") (auto simp: single_def embed_violation_type_def)
  then show ?thesis
    by (simp add: getReportById_def select_reports_def split: option.splits)
qed

section \<open>The duplicate check\<close>

text \<open>
  Claim C10. Whenever the query of \<open>checkDuplicate\<close> comes back with an error, the
  check returns \<open>isDuplicate = false\<close> together with that error, whatever the
  arguments and the stored reports are.
\<close>

theorem checkDuplicate_fails_open:
  "snd (duplicate_query env db plate vt) = Some e
     \<Longrightarrow> checkDuplicate env db plate lat lng vt = \<lparr>isDuplicate = False, error = Some e\<rparr>"
  by (cases "duplicate_query env db plate vt") (simp add: checkDuplicate_def)

theorem checkDuplicate_fails_open_witness:
  "snd (duplicate_query offline_env located_db (Some (ascii ''abc-1234'')) ''bike'') = Some RequestFailed
   \<and> checkDuplicate offline_env located_db (Some (ascii ''abc-1234'')) None None ''bike''
       = \<lparr>isDuplicate = False, error = Some RequestFailed\<rparr>
   \<and> isDuplicate (checkDuplicate later_env located_db (Some (ascii ''abc-1234'')) None None ''bike'')"
proof -
  have err: "snd (duplicate_query offline_env located_db (Some (ascii ''abc-1234'')) ''bike'')
               = Some RequestFailed"
    by code_simp
  have "isDuplicate (checkDuplicate later_env located_db (Some (ascii ''abc-1234'')) None None ''bike'')"
    by code_simp
  with err checkDuplicate_fails_open [OF err] show ?thesis
    by blast
qed

text \<open>
  Claim C3 says that the check is positive only for a prior report within 0.001 degrees
  when a location is given. The stored report of the example lies at latitude 40.6782;
  ten minutes later \<open>checkDuplicate\<close>, asked for the same plate and kind one degree
  further north, answers that it is a duplicate. \<open>check_duplicate_report\<close>, asked
  the same with the plate in capitals, answers that it is not, and that it is one at
  the stored location; there it answers that it is none for the plate in small
  letters, and none when no location is given.
\<close>

theorem checkDuplicate_ignores_location:
  "map latitude (reports located_db) = [Some (406782 / 10000)]
   \<and> isDuplicate (checkDuplicate later_env located_db (Some (ascii ''abc-1234''))
         (Some (416782 / 10000)) (Some (- (739442 / 10000))) ''bike'')
   \<and> \<not> check_duplicate_report later_env located_db (Some (ascii ''ABC-1234''))
         (Some (416782 / 10000)) (Some (- (739442 / 10000))) (Some ''bike'')
   \<and> check_duplicate_report later_env located_db (Some (ascii ''ABC-1234''))
         (Some (406782 / 10000)) (Some (- (739442 / 10000))) (Some ''bike'')
   \<and> \<not> check_duplicate_report later_env located_db (Some (ascii ''abc-1234''))
         (Some (406782 / 10000)) (Some (- (739442 / 10000))) (Some ''bike'')
   \<and> \<not> check_duplicate_report later_env located_db (Some (ascii ''ABC-1234''))
         None None (Some ''bike'')"
  by code_simp

text \<open>
  What the two checks decide in general. The client's check: some report that the
  caller may see has the upper-cased plate and the kind and was reported no more than
  two hours before the client's time. The database's check: some such report has the
  plate as given and the kind, was reported less than two hours before the server's
  time, and has both coordinates, each less than 0.001 away; without a location in the
  arguments it finds nothing.
\<close>

lemma checkDuplicate_iff:
  assumes "request_fault env 0 = None"
  shows "isDuplicate (checkDuplicate env db (Some p) lat lng vt) \<longleftrightarrow>
           (\<exists>r \<in> set (select_reports (auth_user env) db).
              plate_number r = Some (toUpperCase (unicode_upper env) p) \<and> violation_type r = vt
              \<and> (Date_now env - 7200000) * 1000 \<le> reported_at r)"
proof -
  have "0 < length (take 1 (filter P xs)) \<longleftrightarrow> (\<exists>x \<in> set xs. P x)" for P and xs :: "report list"
    by (cases "filter P xs") (auto simp: filter_empty_conv dest: filter_eq_ConsD)
  with assms show ?thesis
    by (simp add: checkDuplicate_def duplicate_query_def eq_filter_def)
qed

lemma check_duplicate_report_iff:
  "check_duplicate_report env db (Some p) (Some lat) (Some lng) (Some vt) \<longleftrightarrow>
     (\<exists>r \<in> set (select_reports (auth_user env) db).
        plate_number r = Some p \<and> violation_type r = vt
        \<and> server_now env - 7200000000 < reported_at r
        \<and> (\<exists>x y. latitude r = Some x \<and> longitude r = Some y
                 \<and> \<bar>x - lat\<bar> < 1 / 1000 \<and> \<bar>y - lng\<bar> < 1 / 1000))"
proof -
  have row: "is_true (sql_eq (plate_number r) (Some p))
        \<and> is_true (sql_eq (Some (violation_type r)) (Some vt))
        \<and> server_now env - 2 * 60 * 60 * 1000000 < reported_at r
        \<and> is_true (sql_near (latitude r) (Some lat))
        \<and> is_true (sql_near (longitude r) (Some lng))
      \<longleftrightarrow> plate_number r = Some p \<and> violation_type r = vt
        \<and> server_now env - 7200000000 < reported_at r
        \<and> (\<exists>x y. latitude r = Some x \<and> longitude r = Some y
                 \<and> \<bar>x - lat\<bar> < 1 / 1000 \<and> \<bar>y - lng\<bar> < 1 / 1000)" for r
    by (cases "plate_number r"; cases "latitude r"; cases "longitude r")
      (simp_all add: is_true_def sql_eq_def sql_near_def)
  have "check_duplicate_report env db (Some p) (Some lat) (Some lng) (Some vt) \<longleftrightarrow>
      (\<exists>r \<in> set (select_reports (auth_user env) db).
         is_true (sql_eq (plate_number r) (Some p))
        \<and> is_true (sql_eq (Some (violation_type r)) (Some vt))
        \<and> server_now env - 2 * 60 * 60 * 1000000 < reported_at r
        \<and> is_true (sql_near (latitude r) (Some lat))
        \<and> is_true (sql_near (longitude r) (Some lng)))"
    unfolding check_duplicate_report_def Let_def length_greater_0_conv filter_empty_conv
    by blast
  then show ?thesis
    unfolding row .
qed

lemma check_duplicate_report_no_location:
  "\<not> check_duplicate_report env db p None lng vt"
  "\<not> check_duplicate_report env db p lat None vt"
  by (auto simp: check_duplicate_report_def Let_def filter_empty_conv is_true_def sql_near_def
      split: option.splits)

section \<open>The summary\<close>

subsection \<open>The view against the wording of the specification\<close>

lemma left_join_count:
  "sql_count (map (map_option report_id) (left_join_reports rows p)) = length (reports_of rows p)"
proof -
  have eq: "filter (\<lambda>r. p = user_id r) rows = reports_of rows p"
    by (simp add: reports_of_def eq_commute)
  show ?thesis
    by (cases "reports_of rows p")
      (simp_all add: left_join_reports_def eq sql_count_def comp_def)
qed

lemma sql_count_Some: "sql_count (map (\<lambda>r. if P r then Some (c r) else None) rs) = length (filter P rs)"
  by (induction rs) (simp_all add: sql_count_def)

lemma left_join_count_status:
  "sql_count (map (one_when_status s) (left_join_reports rows p))
     = length (reports_with_status s rows p)"
proof -
  have eq: "filter (\<lambda>r. p = user_id r) rows = reports_of rows p"
    by (simp add: reports_of_def eq_commute)
  have step: "map (one_when_status s) (map Some rs) = map (\<lambda>r. if status r = Some s then Some 1 else None) rs" for rs
    by (simp add: one_when_status_def comp_def)
  show ?thesis
  proof (cases "reports_of rows p")
    case Nil
    then show ?thesis
      by (simp add: left_join_reports_def eq sql_count_def one_when_status_def reports_with_status_def)
  next
    case (Cons r rs)
    then have "left_join_reports rows p = map Some (reports_of rows p)"
      by (simp add: left_join_reports_def eq)
    then show ?thesis
      by (simp only: step sql_count_Some reports_with_status_def)
  qed
qed

lemma coalesce_sql_sum:
  "coalesce (sql_sum xs) 0 = sum_list (map (\<lambda>x. case x of None \<Rightarrow> 0 | Some v \<Rightarrow> v) xs)"
proof -
  have "sum_list (map the (filter (\<lambda>x. x \<noteq> None) xs)) = sum_list (map (\<lambda>x. case x of None \<Rightarrow> 0 | Some v \<Rightarrow> v) xs)"
    by (induction xs) (auto split: option.splits)
  then show ?thesis
    by (cases "filter (\<lambda>x. x \<noteq> None) xs") (auto simp: sql_sum_def coalesce_def)
qed

lemma sum_reward_when_status:
  "sum_list (map (\<lambda>x. case x of None \<Rightarrow> 0 | Some v \<Rightarrow> v) (map (reward_when_status s) (map Some rs)))
     = reward_sum (filter (\<lambda>r. status r = Some s) rs)"
  by (induction rs) (simp_all add: reward_when_status_def reward_sum_def)

lemma left_join_sum:
  "coalesce (sql_sum (map (reward_when_status s) (left_join_reports rows p))) 0
     = reward_sum (reports_with_status s rows p)"
proof -
  have eq: "filter (\<lambda>r. p = user_id r) rows = reports_of rows p"
    by (simp add: reports_of_def eq_commute)
  show ?thesis
  proof (cases "reports_of rows p")
    case Nil
    then show ?thesis
      by (simp add: coalesce_sql_sum left_join_reports_def eq reward_when_status_def
          reports_with_status_def reward_sum_def)
  next
    case (Cons r rs)
    then have "left_join_reports rows p = map Some (reports_of rows p)"
      by (simp add: left_join_reports_def eq)
    then show ?thesis
      by (simp only: coalesce_sql_sum sum_reward_when_status reports_with_status_def)
  qed
qed

lemma pg_round_0: "pg_round s 0 = 0"
proof -
  have "\<lfloor>1 / 2 :: rat\<rfloor> = 0"
    by (simp add: floor_eq_iff)
  then show ?thesis
    by (simp add: pg_round_def)
qed

lemma user_stats_row_success_rate:
  "success_rate (user_stats_row rows u)
     = spec_success_rate (length (reports_with_status ''approved'' rows u)) (length (reports_of rows u))"
  by (simp add: user_stats_row_def Let_def left_join_count left_join_count_status
      spec_success_rate_def pg_round_0)

text \<open>The sample data: what the view and the client compute for the user.\<close>

lemma user_stats_row_sample:
  "user_stats_row (reports sample_db) ''alice''
     = \<lparr>total_reports = 3, approved_reports = 1, pending_reports = 1, rejected_reports = 1,
        total_earned = 35 / 2, pending_earnings = 23 / 2, success_rate = 333 / 10\<rparr>"
  by code_simp

lemma calculateUserStats_sample:
  "calculateUserStats sample_env sample_db ''alice''
     = Some \<lparr>total_reports = 3, approved_reports = 1, pending_reports = 1, rejected_reports = 1,
             total_earned = 35 / 2, pending_earnings = 23 / 2, success_rate = 33\<rparr>"
  by code_simp

text \<open>
  The view, for every identity: its row holds the number of its reports, the numbers of
  its approved, pending and rejected reports, and the sums of the rewards of its
  approved and of its pending reports; a sum over no report is 0. For the user of the
  sample data, with one approved report of reward 17.50, one pending of 11.50 and one
  rejected of 0, the view gives 3, 1, 1, 1, 17.50 and 11.50, and so does
  \<open>calculateUserStats\<close>.
\<close>

lemma user_stats_row_summary:
  "total_reports (user_stats_row rows u) = length (reports_of rows u)
   \<and> approved_reports (user_stats_row rows u) = length (reports_with_status ''approved'' rows u)
   \<and> pending_reports (user_stats_row rows u) = length (reports_with_status ''pending'' rows u)
   \<and> rejected_reports (user_stats_row rows u) = length (reports_with_status ''rejected'' rows u)
   \<and> total_earned (user_stats_row rows u) = reward_sum (reports_with_status ''approved'' rows u)
   \<and> pending_earnings (user_stats_row rows u) = reward_sum (reports_with_status ''pending'' rows u)
   \<and> reward_sum [] = 0
   \<and> map reward_amount (reports_of (reports sample_db) ''alice'')
       = [Some (35 / 2), Some (23 / 2), Some 0]
   \<and> map status (reports_of (reports sample_db) ''alice'')
       = [Some ''approved'', Some ''pending'', Some ''rejected'']
   \<and> user_stats_row (reports sample_db) ''alice''
       = \<lparr>total_reports = 3, approved_reports = 1, pending_reports = 1, rejected_reports = 1,
          total_earned = 35 / 2, pending_earnings = 23 / 2, success_rate = 333 / 10\<rparr>
   \<and> map_option (\<lambda>s. (total_reports s, approved_reports s, pending_reports s,
                        rejected_reports s, total_earned s, pending_earnings s))
         (calculateUserStats sample_env sample_db ''alice'')
       = Some (3, 1, 1, 1, 35 / 2, 23 / 2)"
proof -
  have general:
    "total_reports (user_stats_row rows u) = length (reports_of rows u)"
    "approved_reports (user_stats_row rows u) = length (reports_with_status ''approved'' rows u)"
    "pending_reports (user_stats_row rows u) = length (reports_with_status ''pending'' rows u)"
    "rejected_reports (user_stats_row rows u) = length (reports_with_status ''rejected'' rows u)"
    "total_earned (user_stats_row rows u) = reward_sum (reports_with_status ''approved'' rows u)"
    "pending_earnings (user_stats_row rows u) = reward_sum (reports_with_status ''pending'' rows u)"
    by (simp_all add: user_stats_row_def Let_def left_join_count left_join_count_status
        left_join_sum)
  have empty: "reward_sum [] = 0"
    by (simp add: reward_sum_def)
  have rewards: "map reward_amount (reports_of (reports sample_db) ''alice'')
       = [Some (35 / 2), Some (23 / 2), Some 0]"
    by code_simp
  have statuses: "map status (reports_of (reports sample_db) ''alice'')
       = [Some ''approved'', Some ''pending'', Some ''rejected'']"
    by code_simp
  have client: "map_option (\<lambda>s. (total_reports s, approved_reports s, pending_reports s,
                        rejected_reports s, total_earned s, pending_earnings s))
         (calculateUserStats sample_env sample_db ''alice'')
       = Some (3, 1, 1, 1, 35 / 2, 23 / 2)"
    by (simp add: calculateUserStats_sample)
  from general empty rewards statuses user_stats_row_sample client show ?thesis
    by (intro conjI)
qed

text \<open>
  \<open>calculateUserStats\<close> reads at most 1000 reports: it never counts more.
\<close>

lemma calculateUserStats_cap:
  "calculateUserStats env db u = Some s \<Longrightarrow> total_reports s \<le> 1000"
  by (auto simp: calculateUserStats_def getUserReports_def Let_def split: option.splits)

text \<open>
  Claim C8 says that the summary returns the sum of the rewards of the approved reports
  as total earned. The user of this example has three approved reports with the
  rewards 0.10, 0.20 and 0.30. Their sum is 0.60, and that is the total earned of the
  view. \<open>calculateUserStats\<close>, which the page calls, adds them as doubles and returns
  0.6000000000000001, the double that is \<open>1 / 11258999068426240\<close> above 0.60.
\<close>

theorem calculateUserStats_total_earned:
  "map status (reports_of (reports dimes_db) ''alice'')
     = [Some ''approved'', Some ''approved'', Some ''approved'']
   \<and> map reward_amount (reports_of (reports dimes_db) ''alice'')
       = [Some (1 / 10), Some (2 / 10), Some (3 / 10)]
   \<and> reward_sum (reports_with_status ''approved'' (reports dimes_db) ''alice'') = 6 / 10
   \<and> total_earned (user_stats_row (reports dimes_db) ''alice'') = 6 / 10
   \<and> map_option total_earned (calculateUserStats sample_env dimes_db ''alice'')
       = Some (6 / 10 + 1 / 11258999068426240)
   \<and> map_option total_reports (calculateUserStats sample_env dimes_db ''alice'') = Some 3"
  by code_simp

text \<open>
  Claim C4 says that the success rate is rounded to one decimal. With one approved
  report out of three, the view gives 33.3, as the specification words it, and
  \<open>calculateUserStats\<close>, which the page calls, gives 33. Without reports both give 0.
\<close>

theorem calculateUserStats_success_rate:
  "map_option success_rate (calculateUserStats sample_env sample_db ''alice'') = Some 33
   \<and> success_rate (user_stats_row (reports sample_db) ''alice'') = 333 / 10
   \<and> spec_success_rate 1 3 = 333 / 10
   \<and> map_option success_rate (calculateUserStats sample_env empty_db ''alice'') = Some 0
   \<and> success_rate (user_stats_row (reports empty_db) ''alice'') = 0"
  by code_simp

section \<open>Row level security\<close>

subsection \<open>Updates of one report\<close>

lemma update_target_unique:
  assumes "distinct (map report_id rows)" and "r \<in> set rows"
  shows "filter (\<lambda>x. V x \<and> U x \<and> by_id (report_id r) x) rows = (if V r \<and> U r then [r] else [])"
    and "map (\<lambda>x. if V x \<and> U x \<and> by_id (report_id r) x then f x else x) rows
           = map (\<lambda>x. if x = r \<and> V r \<and> U r then f r else x) rows"
proof -
  have same: "x = r" if "x \<in> set rows" "report_id x = report_id r" for x
    using assms that by (meson distinct_map inj_onD)
  have "filter (\<lambda>x. V x \<and> U x \<and> by_id (report_id r) x) rows
          = filter (\<lambda>x. x = r \<and> V r \<and> U r) rows"
    by (rule filter_cong) (auto simp: by_id_def dest: same)
  also have "\<dots> = (if V r \<and> U r then filter (\<lambda>x. x = r) rows else [])"
    by simp
  also have "filter (\<lambda>x. x = r) rows = [r]"
  proof -
    from assms have "distinct rows"
      by (simp add: distinct_map)
    with assms(2) show ?thesis
      by (induction rows) (auto simp: filter_empty_conv)
  qed
  finally show "filter (\<lambda>x. V x \<and> U x \<and> by_id (report_id r) x) rows
                  = (if V r \<and> U r then [r] else [])" .
  show "map (\<lambda>x. if V x \<and> U x \<and> by_id (report_id r) x then f x else x) rows
           = map (\<lambda>x. if x = r \<and> V r \<and> U r then f r else x) rows"
    by (rule map_cong) (auto simp: by_id_def dest: same)
qed

lemma update_policy_implies_view:
  "update_own_pending_reports uid r \<Longrightarrow> view_own_reports uid r"
  by (simp add: update_own_pending_reports_def view_own_reports_def)

lemma update_reports_by_id:
  assumes "distinct (map report_id (reports db))" and "r \<in> set (reports db)"
  shows "\<not> update_own_pending_reports uid r
           \<Longrightarrow> update_reports uid (by_id (report_id r)) f db = Inr ([], db)"
    and "update_own_pending_reports uid r \<Longrightarrow> \<not> update_own_pending_reports uid (f r)
           \<Longrightarrow> update_reports uid (by_id (report_id r)) f db = Inl RowSecurityViolation"
    and "update_own_pending_reports uid r \<Longrightarrow> update_own_pending_reports uid (f r)
           \<Longrightarrow> (\<exists>e. e \<noteq> RowSecurityViolation
                    \<and> update_reports uid (by_id (report_id r)) f db = Inl e)
               \<or> update_reports uid (by_id (report_id r)) f db
                   = Inr ([f r], db\<lparr>reports := map (\<lambda>x. if x = r then f r else x) (reports db)\<rparr>)"
proof -
  note uniq = update_target_unique[OF assms, of "view_own_reports uid"
      "update_own_pending_reports uid"]
  {
    assume "\<not> update_own_pending_reports uid r"
    then show "update_reports uid (by_id (report_id r)) f db = Inr ([], db)"
      using assms(1) by (simp add: update_reports_def Let_def uniq)
  }
  {
    assume "update_own_pending_reports uid r" "\<not> update_own_pending_reports uid (f r)"
    then show "update_reports uid (by_id (report_id r)) f db = Inl RowSecurityViolation"
      by (simp add: update_reports_def Let_def uniq update_policy_implies_view)
  }
  {
    assume "update_own_pending_reports uid r" "update_own_pending_reports uid (f r)"
    then show "(\<exists>e. e \<noteq> RowSecurityViolation
                    \<and> update_reports uid (by_id (report_id r)) f db = Inl e)
               \<or> update_reports uid (by_id (report_id r)) f db
                   = Inr ([f r], db\<lparr>reports := map (\<lambda>x. if x = r then f r else x) (reports db)\<rparr>)"
      by (simp add: update_reports_def Let_def uniq update_policy_implies_view)
  }
qed

text \<open>
  Claim C5 says that an update by the owner of a pending report is permitted. The owner
  of the pending report of the example sets its status to \<open>approved\<close>: the statement
  is refused, because the new row fails the policy.
\<close>

theorem update_reports_self_approval:
  "user_id located_report = ''alice''
   \<and> status located_report = Some ''pending''
   \<and> update_reports (Some ''alice'') (by_id (report_id located_report)) (set_status ''approved'')
        located_db = Inl RowSecurityViolation"
  by code_simp

text \<open>
  Claim C5, amended. For every UPDATE that a client sends, whatever its WHERE and SET
  clauses: row level security refuses the statement if and only if some report that the
  WHERE clause selects, whose owning identity is the requester and whose status is
  \<open>pending\<close>, would as updated no longer have the requester as owning identity and
  the status \<open>pending\<close>. When the statement succeeds, a report is replaced by its
  updated row if and only if the WHERE clause selects it, the requester is its owning
  identity and its status is \<open>pending\<close>; these are the rows it returns. Every other
  report stays as it is: every approved report, every rejected one, and every report of
  another identity.
\<close>

theorem update_reports_permitted:
  "(update_reports uid wh f db = Inl RowSecurityViolation
      \<longleftrightarrow> (\<exists>r\<in>set (reports db).
             wh r \<and> uid = Some (user_id r) \<and> status r = Some ''pending''
             \<and> \<not> (uid = Some (user_id (f r)) \<and> status (f r) = Some ''pending'')))
   \<and> (\<forall>rows db'. update_reports uid wh f db = Inr (rows, db') \<longrightarrow>
          reports db'
            = map (\<lambda>r. if wh r \<and> uid = Some (user_id r) \<and> status r = Some ''pending''
                       then f r else r) (reports db)
        \<and> rows
            = map f (filter (\<lambda>r. wh r \<and> uid = Some (user_id r) \<and> status r = Some ''pending'')
                       (reports db))
        \<and> (\<forall>i<length (reports db).
              (status (reports db ! i) = Some ''approved''
               \<or> status (reports db ! i) = Some ''rejected''
               \<or> uid \<noteq> Some (user_id (reports db ! i)))
              \<longrightarrow> reports db' ! i = reports db ! i))"
proof -
  let ?t = "\<lambda>r. wh r \<and> uid = Some (user_id r) \<and> status r = Some ''pending''"
  have target: "(\<lambda>r. view_own_reports uid r \<and> update_own_pending_reports uid r \<and> wh r) = ?t"
    by (rule ext) (auto simp: view_own_reports_def update_own_pending_reports_def)
  have refused: "update_reports uid wh f db = Inl RowSecurityViolation
      \<longleftrightarrow> list_ex (\<lambda>r. \<not> update_own_pending_reports uid r) (map f (filter ?t (reports db)))"
    unfolding update_reports_def Let_def target by simp
  have first: "update_reports uid wh f db = Inl RowSecurityViolation
      \<longleftrightarrow> (\<exists>r\<in>set (reports db).
             wh r \<and> uid = Some (user_id r) \<and> status r = Some ''pending''
             \<and> \<not> (uid = Some (user_id (f r)) \<and> status (f r) = Some ''pending''))"
    unfolding refused list_ex_iff update_own_pending_reports_def by auto
  have second: "reports db' = map (\<lambda>r. if ?t r then f r else r) (reports db)
        \<and> rows = map f (filter ?t (reports db))
        \<and> (\<forall>i<length (reports db).
              (status (reports db ! i) = Some ''approved''
               \<or> status (reports db ! i) = Some ''rejected''
               \<or> uid \<noteq> Some (user_id (reports db ! i)))
              \<longrightarrow> reports db' ! i = reports db ! i)"
    if "update_reports uid wh f db = Inr (rows, db')" for rows db'
  proof -
    from that have tab: "reports db' = map (\<lambda>r. if ?t r then f r else r) (reports db)"
      and rows: "rows = map f (filter ?t (reports db))"
      unfolding update_reports_def Let_def target by (auto split: if_splits)
    have "reports db' ! i = reports db ! i"
      if "i < length (reports db)"
        and "status (reports db ! i) = Some ''approved''
               \<or> status (reports db ! i) = Some ''rejected''
               \<or> uid \<noteq> Some (user_id (reports db ! i))" for i
    proof -
      from that(2) have "\<not> ?t (reports db ! i)"
        by auto
      then have "(if ?t (reports db ! i) then f (reports db ! i) else reports db ! i)
          = reports db ! i"
        by (rule if_not_P)
      with that(1) show ?thesis
        unfolding tab by (simp only: nth_map)
    qed
    with tab rows show ?thesis
      by blast
  qed
  from first second show ?thesis
    by blast
qed

theorem update_reports_permitted_witness:
  "update_reports (Some ''alice'') all_rows (set_plate ''NEW-0001'') sample_db
     = Inr ([set_plate ''NEW-0001'' pending_sample],
            sample_db\<lparr>reports :=
              [approved_sample, set_plate ''NEW-0001'' pending_sample, rejected_sample]\<rparr>)
   \<and> reports sample_db = [approved_sample, pending_sample, rejected_sample]
   \<and> map status (reports sample_db) = [Some ''approved'', Some ''pending'', Some ''rejected'']
   \<and> update_reports (Some ''alice'') all_rows (set_status ''approved'') sample_db
       = Inl RowSecurityViolation"
proof -
  let ?db' = "sample_db\<lparr>reports :=
              [approved_sample, set_plate ''NEW-0001'' pending_sample, rejected_sample]\<rparr>"
  have rows: "reports sample_db = [approved_sample, pending_sample, rejected_sample]"
    by (simp add: sample_db_def)
  have statuses: "map status (reports sample_db)
      = [Some ''approved'', Some ''pending'', Some ''rejected'']"
    by code_simp
  have res: "update_reports (Some ''alice'') all_rows (set_plate ''NEW-0001'') sample_db
     = Inr ([set_plate ''NEW-0001'' pending_sample], ?db')"
    by code_simp
  have "pending_sample \<in> set (reports sample_db)
      \<and> all_rows pending_sample \<and> Some ''alice'' = Some (user_id pending_sample)
      \<and> status pending_sample = Some ''pending''
      \<and> \<not> (Some ''alice'' = Some (user_id (set_status ''approved'' pending_sample))
           \<and> status (set_status ''approved'' pending_sample) = Some ''pending'')"
    by code_simp
  with update_reports_permitted [of "Some ''alice''" all_rows "set_status ''approved''" sample_db]
  have "update_reports (Some ''alice'') all_rows (set_status ''approved'') sample_db
       = Inl RowSecurityViolation"
    by blast
  with rows statuses res show ?thesis
    by blast
qed

subsection \<open>Reports of other identities\<close>

lemma select_reports_owner: "x \<in> set (select_reports (Some A) db) \<Longrightarrow> user_id x = A"
  by (auto simp: select_reports_def view_own_reports_def)

lemma select_reports_without:
  assumes "user_id r \<noteq> A"
  shows "select_reports (Some A) (without_report r db) = select_reports (Some A) db"
proof -
  have "filter (view_own_reports (Some A)) (filter (\<lambda>x. x \<noteq> r) (reports db))
          = filter (view_own_reports (Some A)) (reports db)"
    unfolding filter_filter
    by (rule filter_cong) (use assms in \<open>auto simp: view_own_reports_def\<close>)
  then show ?thesis
    by (simp add: select_reports_def without_report_def)
qed

lemma catalog_without [simp]: "catalog (without_report r db) = catalog db"
  by (simp add: catalog_def without_report_def)

lemma embed_without [simp]: "embed_violation_type (without_report r db) = embed_violation_type db"
  by (rule ext) (simp add: embed_violation_type_def)

lemma client_reads_without:
  assumes "auth_user env = Some A" and "user_id r \<noteq> A"
  shows "getUserReports env (without_report r db) u n = getUserReports env db u n"
    and "getReportById env (without_report r db) rid = getReportById env db rid"
    and "checkDuplicate env (without_report r db) p lat lng vt = checkDuplicate env db p lat lng vt"
  using assms
  by (simp_all add: getUserReports_def getReportById_def checkDuplicate_def duplicate_query_def
      select_reports_without split: option.splits)

lemma insert_report_other_owner:
  "user_id r' \<noteq> A \<Longrightarrow> insert_report (Some A) r' db = Inl RowSecurityViolation"
  by (simp add: insert_report_def create_own_reports_def)

lemma filter_owner_map_update:
  assumes "\<And>x. x \<in> set xs \<Longrightarrow> t x \<Longrightarrow> user_id x \<noteq> B \<and> user_id (f x) \<noteq> B"
  shows "filter (\<lambda>x. user_id x = B) (map (\<lambda>x. if t x then f x else x) xs)
           = filter (\<lambda>x. user_id x = B) xs"
  using assms by (induction xs) auto

lemma update_reports_rows:
  assumes "update_reports (Some A) wh f db = Inr (rows, db')"
  shows "x \<in> set rows \<Longrightarrow> user_id x = A"
    and "A \<noteq> B \<Longrightarrow> reports_of (reports db') B = reports_of (reports db) B"
proof -
  let ?t = "\<lambda>x. view_own_reports (Some A) x \<and> update_own_pending_reports (Some A) x \<and> wh x"
  from assms have ok: "\<not> list_ex (\<lambda>x. \<not> update_own_pending_reports (Some A) x)
      (map f (filter ?t (reports db)))"
    and rows: "rows = map f (filter ?t (reports db))"
    and tab: "reports db' = map (\<lambda>x. if ?t x then f x else x) (reports db)"
    by (auto simp: update_reports_def Let_def split: if_splits)
  from ok have new: "update_own_pending_reports (Some A) (f x)" if "x \<in> set (reports db)" "?t x" for x
    using that by (auto simp: list_ex_iff)
  show "user_id x = A" if "x \<in> set rows"
    using new that by (auto simp: rows update_own_pending_reports_def)
  show "reports_of (reports db') B = reports_of (reports db) B" if "A \<noteq> B"
  proof -
    have "user_id x \<noteq> B \<and> user_id (f x) \<noteq> B" if "x \<in> set (reports db)" "?t x" for x
      using new[OF that] that(2) \<open>A \<noteq> B\<close>
      by (auto simp: update_own_pending_reports_def)
    then show ?thesis
      unfolding reports_of_def tab by (rule filter_owner_map_update)
  qed
qed

lemma update_reports_where_without:
  assumes "user_id r \<noteq> A"
  shows "update_reports (Some A) (\<lambda>x. wh x \<and> x \<noteq> r) f db = update_reports (Some A) wh f db"
proof -
  have "(\<lambda>x. view_own_reports (Some A) x \<and> update_own_pending_reports (Some A) x \<and> wh x \<and> x \<noteq> r)
      = (\<lambda>x. view_own_reports (Some A) x \<and> update_own_pending_reports (Some A) x \<and> wh x)"
    using assms by (auto simp: view_own_reports_def)
  then show ?thesis
    by (simp add: update_reports_def)
qed

text \<open>
  On the table itself the policies keep the reports of others apart. Let \<open>A\<close> and
  \<open>B\<close> be distinct identities and \<open>r\<close> a report of \<open>B\<close>. No select of \<open>A\<close>
  on \<open>reports\<close> returns \<open>r\<close>, and the reads of the client library that go to the
  table give \<open>A\<close> what they give in the database without \<open>r\<close>. Every insert by
  \<open>A\<close> of a row whose owning identity is \<open>B\<close> is refused. Every update by \<open>A\<close>
  that succeeds returns no row of \<open>B\<close> and leaves the reports of \<open>B\<close> as they
  were; and an update by \<open>A\<close> does the same whether or not its WHERE clause selects
  \<open>r\<close>.
\<close>

lemma reports_of_others:
  assumes "A \<noteq> B" and "r \<in> set (reports db)" and "user_id r = B"
  shows "r \<notin> set (select_reports (Some A) db)
       \<and> select_reports (Some A) (without_report r db) = select_reports (Some A) db
       \<and> (\<forall>env. auth_user env = Some A \<longrightarrow>
            (\<forall>u n. getUserReports env (without_report r db) u n = getUserReports env db u n)
          \<and> (\<forall>rid. getReportById env (without_report r db) rid = getReportById env db rid)
          \<and> (\<forall>p lat lng vt. checkDuplicate env (without_report r db) p lat lng vt
                = checkDuplicate env db p lat lng vt))
       \<and> (\<forall>r'. user_id r' = B \<longrightarrow> insert_report (Some A) r' db = Inl RowSecurityViolation)
       \<and> (\<forall>wh f rows db'. update_reports (Some A) wh f db = Inr (rows, db') \<longrightarrow>
            r \<notin> set rows \<and> reports_of (reports db') B = reports_of (reports db) B)
       \<and> (\<forall>wh f. update_reports (Some A) (\<lambda>x. wh x \<and> x \<noteq> r) f db
                    = update_reports (Some A) wh f db)"
proof -
  from assms have other: "user_id r \<noteq> A"
    by simp
  have 1: "r \<notin> set (select_reports (Some A) db)"
    using other select_reports_owner by blast
  have 2: "select_reports (Some A) (without_report r db) = select_reports (Some A) db"
    using other by (rule select_reports_without)
  have 3: "(\<forall>u n. getUserReports env (without_report r db) u n = getUserReports env db u n)
          \<and> (\<forall>rid. getReportById env (without_report r db) rid = getReportById env db rid)
          \<and> (\<forall>p lat lng vt. checkDuplicate env (without_report r db) p lat lng vt
                = checkDuplicate env db p lat lng vt)" if "auth_user env = Some A" for env
    using client_reads_without[OF that other] by blast
  have 4: "insert_report (Some A) r' db = Inl RowSecurityViolation" if "user_id r' = B" for r'
    using that assms(1) by (intro insert_report_other_owner) simp
  have 5: "r \<notin> set rows \<and> reports_of (reports db') B = reports_of (reports db) B"
    if "update_reports (Some A) wh f db = Inr (rows, db')" for wh f rows db'
    using update_reports_rows[OF that] assms(1) other by blast
  have 6: "update_reports (Some A) (\<lambda>x. wh x \<and> x \<noteq> r) f db = update_reports (Some A) wh f db"
    for wh f
    using other by (rule update_reports_where_without)
  from 1 2 3 4 5 6 show ?thesis
    by blast
qed

lemma reports_of_others_example:
  "''bob'' \<noteq> ''alice''
   \<and> located_report \<in> set (reports located_db)
   \<and> user_id located_report = ''alice''
   \<and> located_report \<notin> set (select_reports (Some ''bob'') located_db)
   \<and> getReportById bob_env located_db (report_id located_report) = (None, Some NoSingleRow)
   \<and> insert_report (Some ''bob'') located_report located_db = Inl RowSecurityViolation
   \<and> update_reports (Some ''bob'') (by_id (report_id located_report)) (set_plate ''XYZ-5678'')
        located_db = Inr ([], located_db)"
proof -
  have ne: "''bob'' \<noteq> ''alice''"
    by simp
  have m: "located_report \<in> set (reports located_db)"
    by (simp add: located_db_def)
  have own: "user_id located_report = ''alice''"
    by code_simp
  have "getReportById bob_env located_db (report_id located_report) = (None, Some NoSingleRow)"
    by code_simp
  moreover have "insert_report (Some ''bob'') located_report located_db = Inl RowSecurityViolation"
    by code_simp
  moreover have "update_reports (Some ''bob'') (by_id (report_id located_report))
      (set_plate ''XYZ-5678'') located_db = Inr ([], located_db)"
    by code_simp
  moreover from reports_of_others [OF ne m own]
  have "located_report \<notin> set (select_reports (Some ''bob'') located_db)"
    by blast
  ultimately show ?thesis
    using ne m own by blast
qed

text \<open>
  An insert tells a taken primary key from a free one, also when the row that holds
  the key is a report of another identity.
\<close>

lemma insert_report_taken_id:
  "insert_report (Some ''bob'') (located_report\<lparr>user_id := ''bob''\<rparr>) located_db
     = Inl UniqueViolation"
  "insert_report (Some ''bob'') (located_report\<lparr>user_id := ''bob''\<rparr>)
     (without_report located_report located_db)
     = Inr (empty_db\<lparr>reports := [located_report\<lparr>user_id := ''bob''\<rparr>]\<rparr>)"
  by code_simp+

text \<open>
  Claim C6 says that an identity never reads a report of another identity and that
  such a report is invisible to it. The database of the example holds one report, a
  pending report of the first user with the reward 17.50, and the second user is signed
  in. A select on \<open>reports\<close> gives the second user nothing. \<open>getUserStats\<close> with the
  id of the first user gives the second user that user's row of the view: one report, pending,
  with pending earnings of 17.50; without the report it gives a row of zeros.
\<close>

theorem getUserStats_other_identity:
  "auth_user bob_env = Some ''bob''
   \<and> map user_id (reports located_db) = [''alice'']
   \<and> map status (reports located_db) = [Some ''pending'']
   \<and> map reward_amount (reports located_db) = [Some (35 / 2)]
   \<and> select_reports (Some ''bob'') located_db = []
   \<and> getUserStats bob_env located_db ''alice''
       = (Some (''alice'',
                \<lparr>total_reports = 1, approved_reports = 0, pending_reports = 1,
                 rejected_reports = 0, total_earned = 0, pending_earnings = 35 / 2,
                 success_rate = 0\<rparr>), None)
   \<and> getUserStats bob_env (without_report located_report located_db) ''alice''
       = (Some (''alice'',
                \<lparr>total_reports = 0, approved_reports = 0, pending_reports = 0,
                 rejected_reports = 0, total_earned = 0, pending_earnings = 0,
                 success_rate = 0\<rparr>), None)"
  by code_simp

end
